theory Spec2Isabelle
  imports Main "HOL-Library.Word"
begin

section \<open>Data model of the secure text client (client.py)\<close>

text \<open>
  Bytes objects are lists of 8-bit words. Python integers are unbounded: lengths and
  values read with \<^verbatim>\<open>int.from_bytes\<close> are \<open>nat\<close>, an integer \<^verbatim>\<open>data_length\<close> of a
  received header is an \<open>int\<close> (the peer can send a negative one).
\<close>

type_synonym byte = "8 word"
type_synonym bytes = "byte list"

text \<open>The exceptions the modelled code can raise.\<close>

datatype error =
    ConnectionError
  | ValueError
  | KeyError
  | AttributeError
  | OverflowError
  | UnicodeDecodeError
  | JSONDecodeError
  | TypeError
  | CryptoError

text \<open>\<^verbatim>\<open>class DataMode(Enum): FILE = auto(); BYTES = auto()\<close>\<close>

datatype DataMode = FILE | BYTES

text \<open>\<^verbatim>\<open>CHUNK = 1024\<close> and \<^verbatim>\<open>BUFFER_LIMIT = 256 * 1024 * 1024\<close>\<close>

definition CHUNK :: int where
  "CHUNK = 1024"

definition BUFFER_LIMIT :: int where
  "BUFFER_LIMIT = 256 * 1024 * 1024"

text \<open>
  The header a sender builds, \<^verbatim>\<open>{'event': event, 'data_length': ...}\<close> (lines 246 and
  279). The field \<open>hdr_event\<close> is the value under the key \<^verbatim>\<open>'event'\<close>.
\<close>

record header =
  hdr_event :: string
  data_length :: int

text \<open>
  What \<^verbatim>\<open>json.loads\<close> returns for a received header: \<^verbatim>\<open>None\<close>, a bool, an int, a
  string, a list, or a dict given by its items (the keys of a dict are distinct). The
  peer chooses the header, so it can be any of these. Numbers are integers: a number
  written with a fraction or an exponent, which \<^verbatim>\<open>json.loads\<close> reads as a float, has no
  counterpart here, and headers carrying one are outside the model.
\<close>

datatype json =
    JNull
  | JBool bool
  | JInt int
  | JStr string
  | JList "json list"
  | JObject "(string \<times> json) list"

text \<open>
  \<^verbatim>\<open>data[key]\<close> for a string \<open>key\<close>: KeyError on a dict without the key, TypeError on
  a value that is no dict (a list or a string takes integer indices, the others are not
  subscriptable).
\<close>

definition getitem :: "json \<Rightarrow> string \<Rightarrow> error + json" where
  "getitem data k =
     (case data of
        JObject items \<Rightarrow> (case map_of items k of None \<Rightarrow> Inl KeyError | Some v \<Rightarrow> Inr v)
      | _ \<Rightarrow> Inl TypeError)"

text \<open>
  The integer a value is where Python uses it as a number (compared with an int, passed
  to \<^verbatim>\<open>read\<close>, subtracted from): an int, or a bool as 0 or 1. The other values raise
  TypeError at the first such use.
\<close>

definition as_int :: "json \<Rightarrow> int option" where
  "as_int v =
     (case v of
        JInt n \<Rightarrow> Some n
      | JBool b \<Rightarrow> Some (if b then 1 else 0)
      | _ \<Rightarrow> None)"

text \<open>
  An RSA key object as the code reads it: \<^verbatim>\<open>key.n\<close>, \<^verbatim>\<open>key.e\<close>, \<^verbatim>\<open>key.d\<close>.
\<close>

record rsa_key =
  rsa_n :: nat
  rsa_e :: nat
  rsa_d :: nat

subsection \<open>Integers and bytes\<close>

text \<open>\<^verbatim>\<open>int.from_bytes(bs, 'big')\<close>\<close>

definition int_from_bytes :: "bytes \<Rightarrow> nat" where
  "int_from_bytes bs = foldl (\<lambda>acc b. acc * 256 + unat b) 0 bs"

text \<open>
  \<^verbatim>\<open>x.to_bytes(len, 'big')\<close> for \<open>x \<ge> 0\<close>: OverflowError when \<open>x\<close> does not fit in
  \<open>len\<close> bytes.
\<close>

definition big_endian :: "nat \<Rightarrow> nat \<Rightarrow> bytes" where
  "big_endian len x = map (\<lambda>i. of_nat (x div 256 ^ i mod 256)) (rev [0..<len])"

definition to_bytes :: "nat \<Rightarrow> nat \<Rightarrow> error + bytes" where
  "to_bytes len x = (if 256 ^ len \<le> x then Inl OverflowError else Inr (big_endian len x))"

text \<open>
  The three-argument \<^verbatim>\<open>pow(b, e, m)\<close> on non-negative integers: ValueError when the
  modulus is 0.
\<close>

definition py_pow :: "nat \<Rightarrow> nat \<Rightarrow> nat \<Rightarrow> error + nat" where
  "py_pow b e m = (if m = 0 then Inl ValueError else Inr (b ^ e mod m))"

subsection \<open>Collaborators outside client.py\<close>

text \<open>
  The module \<^verbatim>\<open>Encryptor\<close> (\<^verbatim>\<open>SymmetricEncryptor\<close>, \<^verbatim>\<open>AsymmetricEncryptor\<close>) and the
  libraries the client calls (\<^verbatim>\<open>hashlib.sha512\<close>, \<^verbatim>\<open>json\<close>, \<^verbatim>\<open>RSA.import_key\<close>,
  \<^verbatim>\<open>bytes.decode\<close>) are parameters of the model: every theorem below holds for all of
  them. A call that can raise returns \<open>None\<close> where it raises; \<open>json_loads\<close> returns
  the exception it raises.
  \<^item> \<open>sym_encrypt key data iv\<close>, \<open>sym_decrypt key data iv\<close>: \<^verbatim>\<open>self.encryptor.encrypt(data, iv)\<close>
    and \<^verbatim>\<open>self.encryptor.decrypt(data, iv)\<close> of the encryptor built on session key \<open>key\<close>;
  \<^item> \<open>asym_encrypt\<close>: \<^verbatim>\<open>AsymmetricEncryptor.encrypt(public_key, data)\<close>;
  \<^item> \<open>sha512\<close>: \<^verbatim>\<open>sha512(data).digest()\<close>; a hash object fed by \<^verbatim>\<open>update\<close> is the bytes
    it has been given so far, and its \<^verbatim>\<open>digest()\<close> is \<open>sha512\<close> of them;
  \<^item> \<open>json_loads\<close>: \<^verbatim>\<open>json.loads(data)\<close>: the value decoded, or the exception raised
    (JSONDecodeError on bytes that are not JSON);
  \<^item> \<open>json_dumps\<close>: \<^verbatim>\<open>json.dumps({'event': ..., 'data_length': ...}).encode()\<close>;
  \<^item> \<open>import_key\<close>, \<open>export_key\<close>: \<^verbatim>\<open>RSA.import_key(bs)\<close> (ValueError on bytes that
    are no key) and \<^verbatim>\<open>key.export_key()\<close>;
  \<^item> \<open>utf8_decode\<close>: \<^verbatim>\<open>data.decode(encoding='utf-8')\<close>.
\<close>

record env =
  sym_encrypt :: "bytes \<Rightarrow> bytes \<Rightarrow> bytes \<Rightarrow> bytes option"
  sym_decrypt :: "bytes \<Rightarrow> bytes \<Rightarrow> bytes \<Rightarrow> bytes option"
  asym_encrypt :: "rsa_key \<Rightarrow> bytes \<Rightarrow> bytes option"
  sha512 :: "bytes \<Rightarrow> bytes"
  json_loads :: "bytes \<Rightarrow> error + json"
  json_dumps :: "header \<Rightarrow> bytes"
  import_key :: "bytes \<Rightarrow> rsa_key option"
  export_key :: "rsa_key \<Rightarrow> bytes"
  utf8_decode :: "bytes \<Rightarrow> string option"

subsection \<open>The stream\<close>

text \<open>
  The state of an \<^verbatim>\<open>asyncio.StreamReader\<close>: the bytes still to come, in the pieces in
  which they reach the buffer, followed by end of stream. \<^verbatim>\<open>read(n)\<close> returns at once
  with \<^verbatim>\<open>b''\<close> for \<open>n = 0\<close>, everything up to end of stream for \<open>n < 0\<close>, and
  otherwise at most \<open>n\<close> bytes of what is buffered (\<^verbatim>\<open>b''\<close> only at end of stream).
  Every sequence of results a reader can give is the behaviour of some list of pieces.
\<close>

type_synonym reader = "bytes list"

fun read_buffered :: "nat \<Rightarrow> reader \<Rightarrow> bytes \<times> reader" where
  "read_buffered n [] = ([], [])"
| "read_buffered n (c # cs) =
     (if c = [] then read_buffered n cs
      else (take n c, if drop n c = [] then cs else drop n c # cs))"

definition read :: "int \<Rightarrow> reader \<Rightarrow> bytes \<times> reader" where
  "read n r =
     (if n = 0 then ([], r)
      else if n < 0 then (concat r, [])
      else read_buffered (nat n) r)"

text \<open>
  The pattern of lines 62--65, 142--145, 147--150, 156--159 and 175--178:
  \<^verbatim>\<open>x = await reader.read(n)\<close>, \<^verbatim>\<open>if len(x) != n: raise ConnectionError\<close>.
\<close>

definition read_checked :: "int \<Rightarrow> reader \<Rightarrow> error + (bytes \<times> reader)" where
  "read_checked n r =
     (let (x, r') = read n r
      in if int (length x) \<noteq> n then Inl ConnectionError else Inr (x, r'))"

text \<open>The \<^verbatim>\<open>asyncio.StreamWriter\<close>: the arguments of its \<^verbatim>\<open>write\<close> calls, and \<^verbatim>\<open>close()\<close>.\<close>

record writer =
  written :: "bytes list"
  closed :: bool

subsection \<open>Handlers, payloads and the client object\<close>

text \<open>
  A function the application registers is opaque: it has a \<^verbatim>\<open>__name__\<close> and an
  identity. What the client does with it is the call it makes, \<open>call\<close> below.
\<close>

record func =
  func_name :: string
  func_id :: nat

text \<open>
  What the receive loop hands to a handler: \<^verbatim>\<open>None\<close> (line 126), the decrypted bytes
  (line 180) or the temporary file (line 187), given by its contents.
\<close>

datatype payload = PyNone | Bytes bytes | TmpFile bytes

text \<open>The bytes a payload holds.\<close>

primrec contents :: "payload \<Rightarrow> bytes" where
  "contents PyNone = []"
| "contents (Bytes b) = b"
| "contents (TmpFile f) = f"

text \<open>A value passed to an application function.\<close>

datatype arg = Raw payload | Text string

text \<open>
  The coroutine functions stored in \<^verbatim>\<open>self.events\<close> or used by the loop:
  \<^verbatim>\<open>default_event\<close> (line 138) and the closure \<^verbatim>\<open>wrapper\<close> of \<^verbatim>\<open>event\<close> (line 219), which
  captures \<^verbatim>\<open>func\<close> and \<^verbatim>\<open>event_name\<close>.
\<close>

datatype handler = default_event | wrapper func string

text \<open>
  The client object. \<open>reader\<close> and \<open>writer\<close> are the attributes \<^verbatim>\<open>self.reader\<close> and
  \<^verbatim>\<open>self.writer\<close>: \<open>None\<close> or a reference to the stream object of the connection. The
  state of the stream objects (type \<open>reader\<close>, type \<open>writer\<close>) is passed to and returned
  by the functions that use them. \<open>encryptor\<close> is \<open>None\<close> or the encryptor, given by its
  session key.
\<close>

datatype handle = Stream

record client =
  name :: string
  reader :: "handle option"
  writer :: "handle option"
  events :: "string \<rightharpoonup> handler \<times> DataMode"
  server_public_key :: "rsa_key option"
  client_public_key :: rsa_key
  client_private_key :: rsa_key
  encryptor :: "bytes option"

section \<open>Event registration and dispatch\<close>

text \<open>
  \<^verbatim>\<open>event(self, name=None, data_mode=DataMode.BYTES)\<close> applied to \<^verbatim>\<open>func\<close> (lines 211--231):
  the only statement of the class that writes \<^verbatim>\<open>self.events\<close> after the constructor
  has created it.
\<close>

definition event :: "string option \<Rightarrow> DataMode \<Rightarrow> func \<Rightarrow> client \<Rightarrow> client" where
  "event nm data_mode f c =
     (let event_name = (case nm of Some n \<Rightarrow> n | None \<Rightarrow> func_name f)
      in c\<lparr>events := (events c)(event_name \<mapsto> (wrapper f event_name, data_mode))\<rparr>)"

text \<open>
  The constructor (lines 34--54). The key pair comes from the key-pair provider;
  \<^verbatim>\<open>generate_csr\<close> builds the certificate request, which no other method of the class
  reads. The constructor ends by registering its own \<^verbatim>\<open>disconnect\<close> function with
  \<^verbatim>\<open>@self.event()\<close>.
\<close>

definition disconnect :: func where
  "disconnect = \<lparr>func_name = ''disconnect'', func_id = 0\<rparr>"

definition init :: "string \<Rightarrow> rsa_key \<times> rsa_key \<Rightarrow> client" where
  "init nm keys =
     event None BYTES disconnect
       \<lparr>name = nm, reader = None, writer = None, events = Map.empty,
        server_public_key = None,
        client_public_key = fst keys, client_private_key = snd keys,
        encryptor = None\<rparr>"

text \<open>
  Running \<^verbatim>\<open>wrapper(data)\<close> (lines 219--227). \<^verbatim>\<open>reserved_events\<close> maps four names to
  thunks; the thunk found under \<^verbatim>\<open>event_name\<close>, or else \<^verbatim>\<open>lambda: func(data)\<close>, is called.
  The result is the call made to \<^verbatim>\<open>func\<close>: the function and its arguments.
  \<^verbatim>\<open>data.decode\<close> exists on bytes only (AttributeError otherwise) and raises
  UnicodeDecodeError on bytes that are not UTF-8.
\<close>

type_synonym call = "func \<times> arg list"

definition decode :: "env \<Rightarrow> payload \<Rightarrow> error + string" where
  "decode E data =
     (case data of
        Bytes b \<Rightarrow> (case utf8_decode E b of None \<Rightarrow> Inl UnicodeDecodeError | Some s \<Rightarrow> Inr s)
      | _ \<Rightarrow> Inl AttributeError)"

definition reserved_events :: "env \<Rightarrow> func \<Rightarrow> payload \<Rightarrow> (string \<rightharpoonup> error + call)" where
  "reserved_events E f data =
     [''connect'' \<mapsto> Inr (f, []),
      ''disconnect'' \<mapsto> Inr (f, []),
      ''pong'' \<mapsto> Inr (f, []),
      ''message'' \<mapsto> (case decode E data of Inl e \<Rightarrow> Inl e | Inr s \<Rightarrow> Inr (f, [Text s]))]"

definition run_wrapper :: "env \<Rightarrow> func \<Rightarrow> string \<Rightarrow> payload \<Rightarrow> error + call" where
  "run_wrapper E f event_name data =
     (case reserved_events E f data event_name of
        Some thunk \<Rightarrow> thunk
      | None \<Rightarrow> Inr (f, [Raw data]))"

text \<open>
  Running a scheduled coroutine: \<^verbatim>\<open>default_event(param)\<close> is \<^verbatim>\<open>pass\<close> and calls nothing.
\<close>

definition run_handler :: "env \<Rightarrow> handler \<Rightarrow> payload \<Rightarrow> error + call option" where
  "run_handler E h data =
     (case h of
        default_event \<Rightarrow> Inr None
      | wrapper f event_name \<Rightarrow>
          (case run_wrapper E f event_name data of Inl e \<Rightarrow> Inl e | Inr c \<Rightarrow> Inr (Some c)))"

section \<open>The receive path\<close>

text \<open>
  \<^verbatim>\<open>write_to_file(self, file, reader, data_len, iv)\<close> (lines 56--75). \<open>file'\<close> is what has
  been written to the file, \<open>file_hash\<close> what the hash object has been fed. The result is
  the digest, with the file and the reader as the loop leaves them.
\<close>

function write_to_file ::
  "env \<Rightarrow> bytes \<Rightarrow> bytes \<Rightarrow> reader \<Rightarrow> int \<Rightarrow> bytes \<Rightarrow> bytes \<Rightarrow> error + (bytes \<times> bytes \<times> reader)" where
  "write_to_file E key file' r remaining iv file_hash =
     (if remaining > 0 then
        (let chunk = min remaining CHUNK
         in case read_checked chunk r of
              Inl e \<Rightarrow> Inl e
            | Inr (encrypted_data, r') \<Rightarrow>
                (case sym_decrypt E key encrypted_data iv of
                   None \<Rightarrow> Inl CryptoError
                 | Some data \<Rightarrow>
                     write_to_file E key (file' @ data) r' (remaining - chunk) iv
                       (file_hash @ data)))
      else Inr (sha512 E file_hash, file', r))"
  by pat_completeness auto
termination
  by (relation "measure (\<lambda>(E, key, file', r, remaining, iv, file_hash). nat remaining)")
     (auto simp: CHUNK_def)

declare write_to_file.simps [simp del]

text \<open>
  Lines 142--163 of \<^verbatim>\<open>_process_incoming_events\<close>: the IV, the encrypted length field,
  the encrypted header, and \<^verbatim>\<open>data = json.loads(data)\<close>.
\<close>

definition read_frame_header ::
  "env \<Rightarrow> bytes \<Rightarrow> reader \<Rightarrow> error + (bytes \<times> json \<times> reader)" where
  "read_frame_header E key r =
     (case read_checked 16 r of
        Inl e \<Rightarrow> Inl e
      | Inr (iv, r1) \<Rightarrow>
     (case read_checked 16 r1 of
        Inl e \<Rightarrow> Inl e
      | Inr (encrypted_data, r2) \<Rightarrow>
     (case sym_decrypt E key encrypted_data iv of
        None \<Rightarrow> Inl CryptoError
      | Some data \<Rightarrow>
     (let data_len = int (int_from_bytes data)
      in case read_checked data_len r2 of
        Inl e \<Rightarrow> Inl e
      | Inr (encrypted_data, r3) \<Rightarrow>
     (case sym_decrypt E key encrypted_data iv of
        None \<Rightarrow> Inl CryptoError
      | Some data \<Rightarrow>
     (case json_loads E data of
        Inl e \<Rightarrow> Inl e
      | Inr data \<Rightarrow> Inr (iv, data, r3)))))))"

text \<open>
  Lines 165--169: \<^verbatim>\<open>data_len = data['data_length']\<close>, then
  \<^verbatim>\<open>self.events.get(data['event'], (default_event, ...))\<close>. The arguments of \<^verbatim>\<open>get\<close> are
  evaluated before the call, registered or not: \<^verbatim>\<open>data['event']\<close> first, then the default
  with its comparison \<^verbatim>\<open>data_len > BUFFER_LIMIT\<close>. The key is then hashed (TypeError on a
  list or a dict); every registered name is a string, so a key that is not a string finds
  no registration. The result is \<^verbatim>\<open>event_coroutine\<close>, \<^verbatim>\<open>data_mode\<close> and \<^verbatim>\<open>data_len\<close> as the
  integer it is.
\<close>

definition lookup_event :: "client \<Rightarrow> json \<Rightarrow> error + (handler \<times> DataMode \<times> int)" where
  "lookup_event c data =
     (case getitem data ''data_length'' of
        Inl e \<Rightarrow> Inl e
      | Inr data_len \<Rightarrow>
     (case getitem data ''event'' of
        Inl e \<Rightarrow> Inl e
      | Inr key \<Rightarrow>
     (case as_int data_len of
        None \<Rightarrow> Inl TypeError
      | Some n \<Rightarrow>
     (let default = (default_event, if n > BUFFER_LIMIT then FILE else BYTES)
      in case key of
           JStr s \<Rightarrow>
             (case events c s of
                Some (event_coroutine, data_mode) \<Rightarrow> Inr (event_coroutine, data_mode, n)
              | None \<Rightarrow> Inr (fst default, snd default, n))
         | JList _ \<Rightarrow> Inl TypeError
         | JObject _ \<Rightarrow> Inl TypeError
         | _ \<Rightarrow> Inr (fst default, snd default, n)))))"

text \<open>
  Lines 171--187: the payload, read at once (\<open>BYTES\<close>) or through \<^verbatim>\<open>write_to_file\<close> into
  a fresh temporary file (\<open>FILE\<close>). The result is \<^verbatim>\<open>buffer\<close>, \<^verbatim>\<open>hsh\<close> and the reader.
\<close>

definition read_payload ::
  "env \<Rightarrow> bytes \<Rightarrow> DataMode \<Rightarrow> int \<Rightarrow> bytes \<Rightarrow> reader \<Rightarrow> error + (payload \<times> bytes \<times> reader)" where
  "read_payload E key data_mode data_len iv r =
     (case data_mode of
        BYTES \<Rightarrow>
          (case read_checked data_len r of
             Inl e \<Rightarrow> Inl e
           | Inr (buffer, r') \<Rightarrow>
               (case sym_decrypt E key buffer iv of
                  None \<Rightarrow> Inl CryptoError
                | Some buffer \<Rightarrow> Inr (Bytes buffer, sha512 E buffer, r')))
      | FILE \<Rightarrow>
          (case write_to_file E key [] r data_len iv [] of
             Inl e \<Rightarrow> Inl e
           | Inr (hsh, tmp_file, r') \<Rightarrow> Inr (TmpFile tmp_file, hsh, r')))"

text \<open>
  Lines 189--209: the signature is read with a plain \<^verbatim>\<open>read(2048)\<close>, verified with the
  peer's public key, and the coroutine is scheduled. The result is the scheduled task
  (coroutine function and argument), what was printed, and the reader.
\<close>

type_synonym task = "handler \<times> payload"

definition verify_and_dispatch ::
  "client \<Rightarrow> handler \<Rightarrow> payload \<Rightarrow> bytes \<Rightarrow> reader \<Rightarrow> error + (task \<times> string list \<times> reader)" where
  "verify_and_dispatch c event_coroutine buffer hsh r =
     (let hsh = int_from_bytes hsh;
          (signature, r') = read 2048 r;
          signature = int_from_bytes signature
      in case server_public_key c of
           None \<Rightarrow> Inl AttributeError
         | Some server_pub_key \<Rightarrow>
             (case py_pow signature (rsa_e server_pub_key) (rsa_n server_pub_key) of
                Inl e \<Rightarrow> Inl e
              | Inr hash_from_sign \<Rightarrow>
                  Inr ((event_coroutine, buffer),
                       (if hsh \<noteq> hash_from_sign
                        then [''something wrong with the signature''] else []),
                       r')))"

text \<open>
  One iteration of the loop of \<^verbatim>\<open>_process_incoming_events\<close> (lines 142--209), on a
  client whose encryptor holds session key \<open>key\<close>.
\<close>

definition process_frame ::
  "env \<Rightarrow> client \<Rightarrow> bytes \<Rightarrow> reader \<Rightarrow> error + (task \<times> string list \<times> reader)" where
  "process_frame E c key r =
     (case read_frame_header E key r of
        Inl e \<Rightarrow> Inl e
      | Inr (iv, data, r3) \<Rightarrow>
          (case lookup_event c data of
             Inl e \<Rightarrow> Inl e
           | Inr (event_coroutine, data_mode, data_len) \<Rightarrow>
               (case read_payload E key data_mode data_len iv r3 of
                  Inl e \<Rightarrow> Inl e
                | Inr (buffer, hsh, r4) \<Rightarrow>
                    verify_and_dispatch c event_coroutine buffer hsh r4)))"

subsection \<open>The loop\<close>

text \<open>
  \<open>pending r\<close> is the number of bytes the stream still holds. Every read takes its
  result out of the stream, and an iteration that does not raise has taken at least the
  16 bytes of the IV: the \<^verbatim>\<open>while True\<close> loop ends on every stream that ends.
\<close>

definition pending :: "reader \<Rightarrow> nat" where
  "pending r = length (concat r)"

lemma read_buffered_pending:
  "read_buffered n r = (x, r') \<Longrightarrow> pending r' + length x = pending r"
  by (induction r arbitrary: x r') (auto simp: pending_def split: if_splits)

lemma read_pending: "read n r = (x, r') \<Longrightarrow> pending r' + length x = pending r"
  by (auto simp: read_def read_buffered_pending split: if_splits) (simp add: pending_def)

lemma read_checked_pending:
  "read_checked n r = Inr (x, r') \<Longrightarrow> pending r' + nat n = pending r \<and> int (length x) = n"
  by (auto simp: read_checked_def Let_def split: prod.splits if_splits dest: read_pending)

lemma write_to_file_pending:
  "write_to_file E key fl r remaining iv file_hash = Inr (h, f, r') \<Longrightarrow> pending r' \<le> pending r"
proof (induction E key fl r remaining iv file_hash rule: write_to_file.induct)
  case (1 E key fl r remaining iv file_hash)
  show ?case
  proof (cases "remaining > 0")
    case False
    with "1.prems" show ?thesis by (simp add: write_to_file.simps [of E key fl r])
  next
    case True
    let ?chunk = "min remaining CHUNK"
    from True "1.prems" obtain enc r1 dat where
      rc: "read_checked ?chunk r = Inr (enc, r1)" and
      de: "sym_decrypt E key enc iv = Some dat" and
      rest: "write_to_file E key (fl @ dat) r1 (remaining - ?chunk) iv (file_hash @ dat) = Inr (h, f, r')"
      by (simp add: write_to_file.simps [of E key fl r] Let_def split: sum.splits option.splits prod.splits)
    from "1.IH" [OF True refl rc refl de rest] have "pending r' \<le> pending r1" .
    moreover from read_checked_pending [OF rc] have "pending r1 \<le> pending r" by simp
    ultimately show ?thesis by simp
  qed
qed

lemma read_frame_header_pending:
  "read_frame_header E key r = Inr (iv, h, r3) \<Longrightarrow> pending r3 + 16 \<le> pending r"
  unfolding read_frame_header_def Let_def
  by (auto split: sum.splits option.splits prod.splits dest!: read_checked_pending)

lemma read_payload_pending:
  "read_payload E key m n iv r = Inr (b, hsh, r') \<Longrightarrow> pending r' \<le> pending r"
  unfolding read_payload_def
  by (auto split: DataMode.splits sum.splits option.splits prod.splits
      dest!: read_checked_pending write_to_file_pending)

lemma verify_and_dispatch_pending:
  "verify_and_dispatch c ec b hsh r = Inr (t, out, r') \<Longrightarrow> pending r' \<le> pending r"
  unfolding verify_and_dispatch_def Let_def
  by (auto split: sum.splits option.splits prod.splits dest!: read_pending)

lemma process_frame_pending:
  "process_frame E c key r = Inr (t, out, r') \<Longrightarrow> pending r' < pending r"
  unfolding process_frame_def Let_def
  by (auto split: sum.splits option.splits prod.splits
      dest!: read_frame_header_pending read_payload_pending verify_and_dispatch_pending)

text \<open>
  \<^verbatim>\<open>_process_incoming_events\<close> (lines 136--209): the loop leaves only by an exception.
  The result is that exception, with the tasks scheduled by \<^verbatim>\<open>asyncio.ensure_future\<close>
  and the lines printed, in order.
\<close>

function process_incoming_events ::
  "env \<Rightarrow> client \<Rightarrow> bytes \<Rightarrow> reader \<Rightarrow> task list \<Rightarrow> string list \<Rightarrow> error \<times> task list \<times> string list" where
  "process_incoming_events E c key r tasks out =
     (case process_frame E c key r of
        Inl e \<Rightarrow> (e, tasks, out)
      | Inr (t, printed, r') \<Rightarrow>
          process_incoming_events E c key r' (tasks @ [t]) (out @ printed))"
  by pat_completeness auto
termination
  by (relation "measure (\<lambda>(E, c, key, r, tasks, out). pending r)")
     (auto dest: process_frame_pending)

declare process_incoming_events.simps [simp del]

section \<open>Connecting\<close>

text \<open>\<^verbatim>\<open>is_connected\<close> (lines 233--234)\<close>

definition is_connected :: "client \<Rightarrow> bool" where
  "is_connected c = (reader c \<noteq> None)"

text \<open>
  Lines 98--119 of \<^verbatim>\<open>create_connection\<close>, on the stream \<open>conn\<close> that
  \<^verbatim>\<open>asyncio.open_connection\<close> has opened and with \<open>session_key\<close> the result of
  \<^verbatim>\<open>SymmetricEncryptor.generate_key()\<close>. The result is the client and the writer as
  these lines leave them, and the exception raised or else the reader.
\<close>

definition handshake ::
  "env \<Rightarrow> client \<Rightarrow> bytes \<Rightarrow> reader \<Rightarrow> client \<times> writer \<times> (error + reader)" where
  "handshake E c session_key conn =
     (let c = c\<lparr>reader := Some Stream, writer := Some Stream\<rparr>;
          w = \<lparr>written = [], closed = False\<rparr>;
          key_bytes = export_key E (client_public_key c)
      in case to_bytes 8 (length key_bytes) of
           Inl e \<Rightarrow> (c, w, Inl e)
         | Inr public_key_len \<Rightarrow>
     (let w = w\<lparr>written := written w @ [public_key_len, key_bytes]\<rparr>;
          (len_bytes, r1) = read 8 conn;
          key_len = int (int_from_bytes len_bytes);
          (peer_key, r2) = read key_len r1
      in case import_key E peer_key of
           None \<Rightarrow> (c, w, Inl ValueError)
         | Some k \<Rightarrow>
     (let c = c\<lparr>server_public_key := Some k, encryptor := Some session_key\<rparr>
      in case asym_encrypt E k session_key of
           None \<Rightarrow> (c, w, Inl CryptoError)
         | Some enc_session_key \<Rightarrow>
     (case to_bytes 8 (length enc_session_key) of
           Inl e \<Rightarrow> (c, w, Inl e)
         | Inr n \<Rightarrow> (c, w\<lparr>written := written w @ [n, enc_session_key]\<rparr>, Inr r2)))))"

text \<open>
  \<^verbatim>\<open>create_connection\<close> (lines 97--134). \<open>connection_event\<close> tells whether the caller
  passed an event to set. The result records the client and the writer at the end, the
  exception that leaves the coroutine if any, the tasks scheduled with
  \<^verbatim>\<open>asyncio.ensure_future\<close>, the lines printed, and whether \<^verbatim>\<open>connection_event.set()\<close>
  was reached.
\<close>

record outcome =
  final :: client
  wire :: writer
  raised :: "error option"
  scheduled :: "task list"
  printed :: "string list"
  connection_event_set :: bool

definition create_connection ::
  "env \<Rightarrow> client \<Rightarrow> bytes \<Rightarrow> reader \<Rightarrow> bool \<Rightarrow> outcome" where
  "create_connection E c session_key conn connection_event =
     (let (c, w, res) = handshake E c session_key conn
      in case res of
           Inl e \<Rightarrow>
             \<lparr>final = c, wire = w, raised = Some e, scheduled = [], printed = [],
              connection_event_set = False\<rparr>
         | Inr r \<Rightarrow>
             (let (e, tasks, out) = process_incoming_events E c session_key r [] [];
                  (tasks, exc) =
                    (if e = ConnectionError then
                       (case events c ''disconnect'' of
                          None \<Rightarrow> (tasks, Some KeyError)
                        | Some registration \<Rightarrow> (tasks @ [(fst registration, PyNone)], None))
                     else (tasks, Some e))
              in \<lparr>final = c\<lparr>reader := None, writer := None\<rparr>,
                  wire = w\<lparr>closed := True\<rparr>,
                  raised = exc, scheduled = tasks, printed = out,
                  connection_event_set = connection_event\<rparr>))"

text \<open>\<^verbatim>\<open>terminate\<close> (lines 310--315); the writer it closes is returned closed.\<close>

definition terminate :: "client \<Rightarrow> writer \<Rightarrow> error + (client \<times> writer)" where
  "terminate c w =
     (case writer c of
        None \<Rightarrow> Inl AttributeError
      | Some _ \<Rightarrow>
          Inr (c\<lparr>server_public_key := None, writer := None, reader := None\<rparr>,
               w\<lparr>closed := True\<rparr>))"

section \<open>Sending\<close>

text \<open>
  \<^verbatim>\<open>send(self, event, data)\<close> (lines 236--265), with \<open>iv\<close> the result of
  \<^verbatim>\<open>SymmetricEncryptor.generate_iv()\<close>. The result is the exception raised, or the
  arguments of the calls of \<^verbatim>\<open>self.writer.write\<close>, in order.
\<close>

definition send :: "env \<Rightarrow> client \<Rightarrow> bytes \<Rightarrow> string \<Rightarrow> bytes \<Rightarrow> error + bytes list" where
  "send E c iv ev data =
     (if \<not> is_connected c then Inl ConnectionError
      else case writer c of
        None \<Rightarrow> Inl AttributeError
      | Some _ \<Rightarrow>
     (case encryptor c of
        None \<Rightarrow> Inl AttributeError
      | Some key \<Rightarrow>
     (case sym_encrypt E key data iv of
        None \<Rightarrow> Inl CryptoError
      | Some encrypted_data \<Rightarrow>
     (let header = json_dumps E \<lparr>hdr_event = ev, data_length = int (length encrypted_data)\<rparr>
      in case sym_encrypt E key header iv of
        None \<Rightarrow> Inl CryptoError
      | Some encrypted_header \<Rightarrow>
     (case to_bytes 8 (length encrypted_header) of
        Inl e \<Rightarrow> Inl e
      | Inr n \<Rightarrow>
     (case sym_encrypt E key n iv of
        None \<Rightarrow> Inl CryptoError
      | Some encrypted_len \<Rightarrow>
     (let hsh = int_from_bytes (sha512 E data)
      in case py_pow hsh (rsa_d (client_private_key c)) (rsa_n (client_private_key c)) of
        Inl e \<Rightarrow> Inl e
      | Inr signature \<Rightarrow>
     (case to_bytes 2048 signature of
        Inl e \<Rightarrow> Inl e
      | Inr s \<Rightarrow> Inr [iv, encrypted_len, encrypted_header, encrypted_data, s]))))))))"

text \<open>
  Lines 275--279 of \<^verbatim>\<open>send_file\<close>: the header declared for a file of contents \<open>f\<close>
  (\<^verbatim>\<open>path.stat().st_size\<close> is its length).
\<close>

definition send_file_header :: "string \<Rightarrow> bytes \<Rightarrow> header" where
  "send_file_header ev f =
     (let data_size = int (length f);
          padding_len = 16 - data_size mod 16
      in \<lparr>hdr_event = ev, data_length = data_size + padding_len\<rparr>)"

text \<open>
  Lines 288--298: the file is read 1024 bytes at a time until \<^verbatim>\<open>f.read\<close> returns
  \<^verbatim>\<open>b''\<close>. \<open>f\<close> is the rest of the file, \<open>file_hash\<close> what the hash object has been fed,
  \<open>ws\<close> the chunks written.
\<close>

function send_file_loop ::
  "env \<Rightarrow> bytes \<Rightarrow> bytes \<Rightarrow> bytes \<Rightarrow> bytes \<Rightarrow> bytes list \<Rightarrow> error + (bytes \<times> bytes list)" where
  "send_file_loop E key iv f file_hash ws =
     (let data = take 1024 f
      in if data = [] then Inr (file_hash, ws)
         else (case sym_encrypt E key data iv of
                 None \<Rightarrow> Inl CryptoError
               | Some encrypted \<Rightarrow>
                   send_file_loop E key iv (drop 1024 f) (file_hash @ data) (ws @ [encrypted])))"
  by pat_completeness auto
termination
  by (relation "measure (\<lambda>(E, key, iv, f, file_hash, ws). length f)") auto

declare send_file_loop.simps [simp del]

text \<open>
  \<^verbatim>\<open>send_file(self, event, path)\<close> (lines 267--308) on a file of contents \<open>f\<close>.
\<close>

definition send_file :: "env \<Rightarrow> client \<Rightarrow> bytes \<Rightarrow> string \<Rightarrow> bytes \<Rightarrow> error + bytes list" where
  "send_file E c iv ev f =
     (if \<not> is_connected c then Inl ConnectionError
      else case writer c of
        None \<Rightarrow> Inl AttributeError
      | Some _ \<Rightarrow>
     (let header = json_dumps E (send_file_header ev f)
      in case encryptor c of
        None \<Rightarrow> Inl AttributeError
      | Some key \<Rightarrow>
     (case sym_encrypt E key header iv of
        None \<Rightarrow> Inl CryptoError
      | Some encrypted_header \<Rightarrow>
     (case to_bytes 8 (length encrypted_header) of
        Inl e \<Rightarrow> Inl e
      | Inr n \<Rightarrow>
     (case sym_encrypt E key n iv of
        None \<Rightarrow> Inl CryptoError
      | Some encrypted_len \<Rightarrow>
     (case send_file_loop E key iv f [] [] of
        Inl e \<Rightarrow> Inl e
      | Inr (file_hash, chunks) \<Rightarrow>
     (let hsh = int_from_bytes (sha512 E file_hash)
      in case py_pow hsh (rsa_d (client_private_key c)) (rsa_n (client_private_key c)) of
        Inl e \<Rightarrow> Inl e
      | Inr signature \<Rightarrow>
     (case to_bytes 2048 signature of
        Inl e \<Rightarrow> Inl e
      | Inr s \<Rightarrow> Inr ([iv, encrypted_len, encrypted_header] @ chunks @ [s])))))))))"

section \<open>RSA key pairs\<close>

text \<open>
  What the signature property assumes of a key: the modulus is the product of two
  distinct primes \<open>p\<close> and \<open>q\<close>, and the two exponents are inverse to each other modulo
  the order \<open>(p - 1) * (q - 1)\<close> of the multiplicative group.
\<close>

definition is_prime :: "nat \<Rightarrow> bool" where
  "is_prime p = (1 < p \<and> (\<forall>m \<in> {2..<p}. \<not> m dvd p))"

definition rsa_key_pair :: "nat \<Rightarrow> nat \<Rightarrow> rsa_key \<Rightarrow> bool" where
  "rsa_key_pair p q k =
     (is_prime p \<and> is_prime q \<and> p \<noteq> q \<and> rsa_n k = p * q
      \<and> rsa_e k * rsa_d k mod ((p - 1) * (q - 1)) = 1)"

section \<open>A small instance\<close>

text \<open>
  The theorems below hold for every choice of the collaborators. To show that their
  hypotheses can be met, they are also applied to one small, fully concrete choice: a
  cipher that adds one to every byte, a one-byte checksum as the hash, two-byte headers
  and keys, and the ASCII part of UTF-8. The RSA key is \<open>n = 33 = 3 * 11\<close>, \<open>e = 3\<close>,
  \<open>d = 7\<close>.
\<close>

definition demo :: env where
  "demo =
     \<lparr>sym_encrypt = (\<lambda>key data iv. Some (map (\<lambda>b. b + 1) data)),
      sym_decrypt = (\<lambda>key data iv. Some (map (\<lambda>b. b - 1) data)),
      asym_encrypt = (\<lambda>k data. Some data),
      sha512 = (\<lambda>data. [sum_list data]),
      json_loads = (\<lambda>data. case data of
                       [t, n] \<Rightarrow> Inr (JObject
                                    [(''event'', JStr (if t = 0 then ''view'' else ''message'')),
                                     (''data_length'', JInt (int (unat n)))])
                     | _ \<Rightarrow> Inl JSONDecodeError),
      json_dumps = (\<lambda>h. [if hdr_event h = ''view'' then 0 else 1, of_int (data_length h)]),
      import_key = (\<lambda>data. case data of
                       [n, e] \<Rightarrow> Some \<lparr>rsa_n = unat n, rsa_e = unat e, rsa_d = 0\<rparr>
                     | _ \<Rightarrow> None),
      export_key = (\<lambda>k. [of_nat (rsa_n k), of_nat (rsa_e k)]),
      utf8_decode = (\<lambda>data. if list_all (\<lambda>b. b < 128) data
                              then Some (map (\<lambda>b. char_of (unat b)) data) else None)\<rparr>"

definition demo_public :: rsa_key where
  "demo_public = \<lparr>rsa_n = 33, rsa_e = 3, rsa_d = 0\<rparr>"

definition demo_private :: rsa_key where
  "demo_private = \<lparr>rsa_n = 33, rsa_e = 3, rsa_d = 7\<rparr>"

text \<open>A freshly constructed client, and the same client once connected.\<close>

definition alice :: client where
  "alice = init ''alice'' (demo_public, demo_private)"

definition alice_connected :: client where
  "alice_connected =
     alice\<lparr>reader := Some Stream, writer := Some Stream,
           server_public_key := Some demo_public, encryptor := Some [7]\<rparr>"

text \<open>Three functions an application registers.\<close>

definition on_pong :: func where
  "on_pong = \<lparr>func_name = ''pong'', func_id = 1\<rparr>"

definition on_text :: func where
  "on_text = \<lparr>func_name = ''show'', func_id = 2\<rparr>"

definition view :: func where
  "view = \<lparr>func_name = ''view'', func_id = 3\<rparr>"

text \<open>
  A frame without its signature: the IV, the encrypted length 2 of the header, the
  encrypted header (event \<^verbatim>\<open>view\<close>, \<^verbatim>\<open>data_length\<close> 2) and the encrypted payload, whose
  plaintext is \<open>[1, 1]\<close> with checksum 2. The signature of 2 under the key is
  \<open>2 ^ 7 mod 33 = 29\<close>.
\<close>

definition demo_header :: json where
  "demo_header = JObject [(''event'', JStr ''view''), (''data_length'', JInt 2)]"

definition demo_iv :: bytes where
  "demo_iv = [0, 0, 0, 0, 0, 0, 0, 0, 0, 0, 0, 0, 0, 0, 0, 0]"

definition demo_frame :: bytes where
  "demo_frame =
     demo_iv @
     [1, 1, 1, 1, 1, 1, 1, 1, 1, 1, 1, 1, 1, 1, 1, 3] @
     [1, 3] @
     [2, 2]"

definition demo_signature :: bytes where
  "demo_signature = replicate 2047 0 @ [29]"

text \<open>2048 bytes that are not the signature of 2: \<open>5 ^ 3 mod 33 = 26\<close>.\<close>

definition demo_forged :: bytes where
  "demo_forged = replicate 2047 0 @ [5]"

text \<open>
  A stream for a whole connection: the peer's key, length-prefixed, then one signed
  frame, then end of stream.
\<close>

definition demo_stream :: reader where
  "demo_stream = [[0, 0, 0, 0, 0, 0, 0, 2, 33, 3], demo_frame, demo_signature]"

section \<open>Properties of the model\<close>

subsection \<open>Registration, exceptions and the loop\<close>

lemma events_event:
  "events (event nm m f c) =
     (events c)((case nm of Some n \<Rightarrow> n | None \<Rightarrow> func_name f) \<mapsto>
        (wrapper f (case nm of Some n \<Rightarrow> n | None \<Rightarrow> func_name f), m))"
  by (simp add: event_def Let_def)

lemma event_keeps_registrations: "events c k \<noteq> None \<Longrightarrow> events (event nm m f c) k \<noteq> None"
  by (simp add: events_event)

lemma init_registers_disconnect:
  "events (init n keys) ''disconnect'' = Some (wrapper disconnect ''disconnect'', BYTES)"
  by (simp add: init_def events_event disconnect_def)

lemma registrations_keep:
  "events c k \<noteq> None \<Longrightarrow> events (foldl (\<lambda>c (nm, m, f). event nm m f c) c regs) k \<noteq> None"
proof (induction regs arbitrary: c)
  case Nil
  then show ?case by simp
next
  case (Cons x regs)
  obtain nm m f where x: "x = (nm, m, f)" by (cases x)
  from Cons.prems have "events (event nm m f c) k \<noteq> None"
    by (rule event_keeps_registrations)
  from Cons.IH [OF this] show ?case by (simp add: x)
qed

lemma handshake_events: "handshake E c sk conn = (c', w, res) \<Longrightarrow> events c' = events c"
  unfolding handshake_def Let_def
  by (auto split: sum.splits option.splits prod.splits)

text \<open>
  No method but \<^verbatim>\<open>event\<close> changes the registration table, and every entry it stores
  is a \<^verbatim>\<open>wrapper\<close> closed over the name it is stored under.
\<close>

lemma terminate_events: "terminate c w = Inr (c', w') \<Longrightarrow> events c' = events c"
  by (auto simp: terminate_def split: option.splits)

lemma create_connection_events:
  "events (final (create_connection E c session_key conn connection_event)) = events c"
proof -
  obtain c' w res where hs: "handshake E c session_key conn = (c', w, res)"
    by (cases "handshake E c session_key conn") auto
  from handshake_events [OF hs] hs show ?thesis
    by (cases res) (auto simp: create_connection_def Let_def split: prod.splits)
qed

lemma event_stores_wrapper:
  assumes "\<forall>k h m. events c k = Some (h, m) \<longrightarrow> (\<exists>g. h = wrapper g k)"
  shows "\<forall>k h m'. events (event nm m f c) k = Some (h, m') \<longrightarrow> (\<exists>g. h = wrapper g k)"
  using assms by (auto simp: events_event)

lemma registrations_store_wrappers:
  "\<forall>k h m. events c k = Some (h, m) \<longrightarrow> (\<exists>g. h = wrapper g k) \<Longrightarrow>
     \<forall>k h m. events (foldl (\<lambda>c (nm, m, f). event nm m f c) c regs) k = Some (h, m)
        \<longrightarrow> (\<exists>g. h = wrapper g k)"
proof (induction regs arbitrary: c)
  case Nil
  then show ?case by simp
next
  case (Cons x regs)
  obtain nm m f where x: "x = (nm, m, f)" by (cases x)
  from Cons.prems
  have "\<forall>k h m'. events (event nm m f c) k = Some (h, m') \<longrightarrow> (\<exists>g. h = wrapper g k)"
    by (rule event_stores_wrapper)
  from Cons.IH [OF this] show ?case by (simp add: x)
qed

lemma disconnect_registration:
  "\<exists>f m. events (foldl (\<lambda>c (nm, m, f). event nm m f c) (init n keys) regs) ''disconnect''
           = Some (wrapper f ''disconnect'', m)"
proof -
  let ?c = "foldl (\<lambda>c (nm, m, f). event nm m f c) (init n keys) regs"
  have "events ?c ''disconnect'' \<noteq> None"
    by (rule registrations_keep) (simp add: init_registers_disconnect)
  then obtain h m where hm: "events ?c ''disconnect'' = Some (h, m)" by auto
  have "\<forall>k h m. events ?c k = Some (h, m) \<longrightarrow> (\<exists>g. h = wrapper g k)"
    by (rule registrations_store_wrappers)
       (auto simp: init_def events_event split: if_splits)
  with hm obtain f where "h = wrapper f ''disconnect''" by blast
  with hm show ?thesis by blast
qed

lemma loop_stops:
  "process_frame E c key r = Inl e \<Longrightarrow> process_incoming_events E c key r tasks out = (e, tasks, out)"
  by (simp add: process_incoming_events.simps [of E c key r])

lemma loop_continues:
  "process_frame E c key r = Inr (t, p, r') \<Longrightarrow>
     process_incoming_events E c key r tasks out =
     process_incoming_events E c key r' (tasks @ [t]) (out @ p)"
  by (simp add: process_incoming_events.simps [of E c key r])

subsection \<open>Modular exponentiation\<close>

lemma int_from_bytes_bound: "int_from_bytes bs < 256 ^ length bs"
proof -
  have "foldl (\<lambda>acc b. acc * 256 + unat b) a bs < (a + 1) * 256 ^ length bs" for a
  proof (induction bs arbitrary: a)
    case Nil
    show ?case by simp
  next
    case (Cons b bs)
    have "unat b < 256" using unsigned_less [of b] by simp
    then have "a * 256 + unat b + 1 \<le> (a + 1) * 256" by simp
    then have "(a * 256 + unat b + 1) * 256 ^ length bs \<le> (a + 1) * 256 * 256 ^ length bs"
      by (rule mult_le_mono1)
    with Cons.IH [of "a * 256 + unat b"]
    have "foldl (\<lambda>acc b. acc * 256 + unat b) (a * 256 + unat b) bs
            < (a + 1) * 256 * 256 ^ length bs"
      by (rule less_le_trans)
    also have "(a + 1) * 256 * 256 ^ length bs = (a + 1) * 256 ^ length (b # bs)"
      by (simp only: mult.assoc list.size power_Suc add_Suc_right add_0_right
          length_Cons)
    finally show ?case by (simp only: foldl_Cons)
  qed
  from this [of 0] show ?thesis by (simp add: int_from_bytes_def)
qed

lemma is_prime_divisors:
  assumes "is_prime p" and "m dvd p"
  shows "m = 1 \<or> m = p"
proof (rule ccontr)
  assume neg: "\<not> (m = 1 \<or> m = p)"
  from assms have "0 < p" by (simp add: is_prime_def)
  with assms(2) have "m \<le> p" "m \<noteq> 0" by (auto dest: dvd_imp_le)
  with neg have "m \<in> {2..<p}" by auto
  with assms show False by (auto simp: is_prime_def)
qed

lemma is_prime_coprime:
  assumes "is_prime p" and "\<not> p dvd a"
  shows "coprime p a"
proof -
  have "gcd p a dvd p" by simp
  from is_prime_divisors [OF assms(1) this] have "gcd p a = 1 \<or> gcd p a = p" .
  moreover have "gcd p a \<noteq> p" using assms(2) by (metis gcd_dvd2)
  ultimately show ?thesis by (simp add: coprime_iff_gcd_eq_1)
qed

lemma is_prime_dvd_choose:
  assumes "is_prime p" and "0 < k" and "k < p"
  shows "p dvd (p choose k)"
proof -
  have "k * (p choose k) = p * ((p - 1) choose (k - 1))"
    using assms(2) by (rule times_binomial_minus1_eq)
  then have "p dvd k * (p choose k)" by simp
  moreover have "coprime p k"
    using assms by (intro is_prime_coprime) (auto dest: dvd_imp_le)
  ultimately show ?thesis by (simp add: coprime_dvd_mult_right_iff)
qed

lemma fermat_step:
  assumes "is_prime p"
  shows "(a + 1) ^ p mod p = (a ^ p + 1) mod p"
proof -
  from assms have p: "1 < p" by (simp add: is_prime_def)
  have expand: "(a + 1) ^ p = (\<Sum>k\<le>p. (p choose k) * a ^ k)"
    using binomial [of a 1 p] by simp
  have split: "{..p} = insert 0 (insert p {1..<p})"
    using p by auto
  have "(\<Sum>k\<le>p. (p choose k) * a ^ k) = 1 + (a ^ p + (\<Sum>k\<in>{1..<p}. (p choose k) * a ^ k))"
    using p by (simp add: split)
  moreover have "p dvd (\<Sum>k\<in>{1..<p}. (p choose k) * a ^ k)"
    by (intro dvd_sum dvd_mult2 is_prime_dvd_choose [OF assms]) auto
  then obtain x where "(\<Sum>k\<in>{1..<p}. (p choose k) * a ^ k) = p * x" ..
  ultimately have "(a + 1) ^ p = (a ^ p + 1) + p * x"
    using expand by simp
  then show ?thesis by simp
qed

lemma fermat_little:
  assumes "is_prime p"
  shows "a ^ p mod p = a mod p"
proof (induction a)
  case 0
  from assms have "0 < p" by (simp add: is_prime_def)
  then show ?case by (simp add: zero_power)
next
  case (Suc a)
  have "Suc a ^ p mod p = (a ^ p + 1) mod p"
    using fermat_step [OF assms, of a] by simp
  also have "\<dots> = (a ^ p mod p + 1) mod p" by (simp only: mod_add_left_eq)
  also have "\<dots> = (a mod p + 1) mod p" by (simp only: Suc.IH)
  also have "\<dots> = (a + 1) mod p" by (simp only: mod_add_left_eq)
  also have "\<dots> = Suc a mod p" by simp
  finally show ?case .
qed

lemma fermat_exponent:
  assumes "is_prime p"
  shows "a ^ (1 + k * (p - 1)) mod p = a mod p"
proof (induction k)
  case 0
  show ?case by simp
next
  case (Suc k)
  from assms have p: "0 < p" by (simp add: is_prime_def)
  have "1 + Suc k * (p - 1) = (1 + k * (p - 1)) + (p - 1)" by simp
  then have "a ^ (1 + Suc k * (p - 1)) = a ^ (1 + k * (p - 1)) * a ^ (p - 1)"
    by (simp only: power_add)
  then have "a ^ (1 + Suc k * (p - 1)) mod p = (a ^ (1 + k * (p - 1)) mod p) * a ^ (p - 1) mod p"
    by (simp only: mod_mult_left_eq)
  also have "\<dots> = (a mod p) * a ^ (p - 1) mod p" by (simp only: Suc.IH)
  also have "\<dots> = a * a ^ (p - 1) mod p" by (simp only: mod_mult_left_eq)
  also have "a * a ^ (p - 1) = a ^ p" using p by (cases p) simp_all
  also have "a ^ p mod p = a mod p" by (rule fermat_little [OF assms])
  finally show ?case .
qed

lemma chinese_remainder:
  fixes x y :: nat
  assumes "coprime p q" and "x mod p = y mod p" and "x mod q = y mod q"
  shows "x mod (p * q) = y mod (p * q)"
proof -
  have "int p dvd int x - int y"
    using assms(2) by (metis mod_eq_dvd_iff of_nat_mod)
  moreover have "int q dvd int x - int y"
    using assms(3) by (metis mod_eq_dvd_iff of_nat_mod)
  moreover have "coprime (int p) (int q)"
    using assms(1) by simp
  ultimately have "int p * int q dvd int x - int y"
    by (simp add: divides_mult)
  then have "int x mod (int p * int q) = int y mod (int p * int q)"
    by (simp add: mod_eq_dvd_iff)
  then have "int (x mod (p * q)) = int (y mod (p * q))"
    by (simp add: of_nat_mod)
  then show ?thesis by (simp only: of_nat_eq_iff)
qed

lemma rsa_exponents:
  assumes "is_prime p" and "is_prime q" and "p \<noteq> q"
    and "e * d mod ((p - 1) * (q - 1)) = 1"
  shows "a ^ (e * d) mod (p * q) = a mod (p * q)"
proof -
  define t where "t = e * d div ((p - 1) * (q - 1))"
  have "e * d div ((p - 1) * (q - 1)) * ((p - 1) * (q - 1)) + e * d mod ((p - 1) * (q - 1))
          = e * d"
    by (rule div_mult_mod_eq)
  then have "t * ((p - 1) * (q - 1)) + 1 = e * d"
    by (simp only: t_def assms(4))
  then have ed: "e * d = 1 + t * ((p - 1) * (q - 1))"
    by (simp only: add.commute)
  have "e * d = 1 + (t * (q - 1)) * (p - 1)" unfolding ed by (simp add: mult_ac)
  then have mp: "a ^ (e * d) mod p = a mod p"
    using fermat_exponent [OF assms(1), of a "t * (q - 1)"] by simp
  have "e * d = 1 + (t * (p - 1)) * (q - 1)" unfolding ed by (simp add: mult_ac)
  then have mq: "a ^ (e * d) mod q = a mod q"
    using fermat_exponent [OF assms(2), of a "t * (p - 1)"] by simp
  have "\<not> p dvd q"
    using is_prime_divisors [OF assms(2), of p] assms(1,3) by (auto simp: is_prime_def)
  then have "coprime p q" by (rule is_prime_coprime [OF assms(1)])
  from chinese_remainder [OF this mp mq] show ?thesis .
qed

subsection \<open>Receiving a frame\<close>

lemma write_to_file_digest:
  "write_to_file E key fl r remaining iv file_hash = Inr (h, f, r') \<Longrightarrow>
     \<exists>plain. f = fl @ plain \<and> h = sha512 E (file_hash @ plain)"
proof (induction E key fl r remaining iv file_hash rule: write_to_file.induct)
  case (1 E key fl r remaining iv file_hash)
  show ?case
  proof (cases "remaining > 0")
    case False
    with "1.prems" show ?thesis by (simp add: write_to_file.simps [of E key fl r])
  next
    case True
    let ?chunk = "min remaining CHUNK"
    from True "1.prems" obtain enc r1 dat where
      rc: "read_checked ?chunk r = Inr (enc, r1)" and
      de: "sym_decrypt E key enc iv = Some dat" and
      rest: "write_to_file E key (fl @ dat) r1 (remaining - ?chunk) iv (file_hash @ dat) = Inr (h, f, r')"
      by (simp add: write_to_file.simps [of E key fl r] Let_def
          split: sum.splits option.splits prod.splits)
    from "1.IH" [OF True refl rc refl de rest] obtain plain where
      "f = (fl @ dat) @ plain" "h = sha512 E ((file_hash @ dat) @ plain)" by blast
    then have "f = fl @ (dat @ plain) \<and> h = sha512 E (file_hash @ (dat @ plain))" by simp
    then show ?thesis by blast
  qed
qed

lemma read_payload_digest:
  "read_payload E key m n iv r = Inr (buffer, hsh, r') \<Longrightarrow> hsh = sha512 E (contents buffer)"
  unfolding read_payload_def
  by (auto split: DataMode.splits sum.splits option.splits prod.splits
      dest!: write_to_file_digest)

lemma read_checked_short:
  "int (length (fst (read n r))) \<noteq> n \<Longrightarrow> read_checked n r = Inl ConnectionError"
  by (auto simp: read_checked_def split: prod.splits)

lemma read_checked_full:
  "read_checked n r = Inr (x, r') \<Longrightarrow> read n r = (x, r') \<and> int (length x) = n"
  by (auto simp: read_checked_def split: prod.splits if_splits)

lemma int_from_bytes_zeros: "int_from_bytes (replicate n 0 @ bs) = int_from_bytes bs"
proof -
  have "foldl (\<lambda>acc b. acc * 256 + unat b) a (replicate n (0::byte)) = a * 256 ^ n" for a
    by (induction n arbitrary: a) (auto simp: algebra_simps)
  then show ?thesis by (simp add: int_from_bytes_def)
qed

lemma read_2048_chunk:
  "length s = 2048 \<Longrightarrow> read 2048 (s # r) = (s, r)"
  by (auto simp: read_def)

lemma process_frame_at_end: "process_frame E c key [] = Inl ConnectionError"
  by (simp add: process_frame_def read_frame_header_def read_checked_def read_def)

lemma process_frame_dispatches:
  assumes "read_frame_header E key r = Inr (iv, data, r3)"
    and "lookup_event c data = Inr (coroutine, data_mode, data_len)"
    and "read_payload E key data_mode data_len iv r3 = Inr (buffer, hsh, r4)"
    and "server_public_key c = Some k"
    and "rsa_n k \<noteq> 0"
  shows "process_frame E c key r =
           Inr ((coroutine, buffer),
                (if int_from_bytes hsh
                      \<noteq> int_from_bytes (fst (read 2048 r4)) ^ rsa_e k mod rsa_n k
                 then [''something wrong with the signature''] else []),
                snd (read 2048 r4))"
proof -
  have "verify_and_dispatch c coroutine buffer hsh r4 =
          Inr ((coroutine, buffer),
               (if int_from_bytes hsh \<noteq> int_from_bytes (fst (read 2048 r4)) ^ rsa_e k mod rsa_n k
                then [''something wrong with the signature''] else []),
               snd (read 2048 r4))"
    using assms(4,5)
    by (simp add: verify_and_dispatch_def py_pow_def Let_def split: prod.splits)
  with assms(1,2,3) show ?thesis
    by (simp add: process_frame_def)
qed

text \<open>
  A header that is no dict, or lacks \<^verbatim>\<open>'data_length'\<close> or \<^verbatim>\<open>'event'\<close>, or whose
  \<^verbatim>\<open>data_length\<close> is no number, ends the iteration with the exception of lines 165--169:
  KeyError or TypeError, which \<^verbatim>\<open>create_connection\<close> does not catch.
\<close>

lemma getitem_missing: "map_of items k = None \<Longrightarrow> getitem (JObject items) k = Inl KeyError"
  by (simp add: getitem_def)

lemma lookup_event_missing_length:
  "map_of items ''data_length'' = None \<Longrightarrow> lookup_event c (JObject items) = Inl KeyError"
  by (simp add: lookup_event_def getitem_def)

lemma header_exception_ends_frame:
  "read_frame_header E key r = Inr (iv, data, r3) \<Longrightarrow> lookup_event c data = Inl e \<Longrightarrow>
     process_frame E c key r = Inl e"
  by (simp add: process_frame_def)

lemma lookup_event_length:
  "lookup_event c data = Inr (coroutine, data_mode, n) \<Longrightarrow>
     \<exists>data_len. getitem data ''data_length'' = Inr data_len \<and> as_int data_len = Some n"
  unfolding lookup_event_def Let_def
  by (auto split: sum.splits option.splits json.splits prod.splits)

text \<open>
  The reads that are checked: a short IV, length field, header, buffered payload or
  streamed chunk raises ConnectionError, and the frame is not dispatched.
\<close>

lemma short_iv_raises:
  "length (fst (read 16 r)) \<noteq> 16 \<Longrightarrow> process_frame E c key r = Inl ConnectionError"
  by (simp add: process_frame_def read_frame_header_def read_checked_short)

lemma short_length_field_raises:
  "read_checked 16 r = Inr (iv, r1) \<Longrightarrow> length (fst (read 16 r1)) \<noteq> 16 \<Longrightarrow>
     process_frame E c key r = Inl ConnectionError"
  by (simp add: process_frame_def read_frame_header_def read_checked_short)

lemma short_header_raises:
  "read_checked 16 r = Inr (iv, r1) \<Longrightarrow> read_checked 16 r1 = Inr (encrypted, r2) \<Longrightarrow>
   sym_decrypt E key encrypted iv = Some d \<Longrightarrow>
   length (fst (read (int (int_from_bytes d)) r2)) \<noteq> int_from_bytes d \<Longrightarrow>
     process_frame E c key r = Inl ConnectionError"
  by (simp add: process_frame_def read_frame_header_def read_checked_short)

lemma short_buffered_payload_raises:
  "read_frame_header E key r = Inr (iv, data, r3) \<Longrightarrow>
   lookup_event c data = Inr (coroutine, BYTES, data_len) \<Longrightarrow>
   int (length (fst (read data_len r3))) \<noteq> data_len \<Longrightarrow>
     process_frame E c key r = Inl ConnectionError"
  by (simp add: process_frame_def read_payload_def read_checked_short)

lemma short_chunk_raises:
  "remaining > 0 \<Longrightarrow>
   int (length (fst (read (min remaining CHUNK) r))) \<noteq> min remaining CHUNK \<Longrightarrow>
     write_to_file E key fl r remaining iv file_hash = Inl ConnectionError"
  by (simp add: write_to_file.simps [of E key fl r] read_checked_short)

lemma short_streamed_payload_raises:
  "read_frame_header E key r = Inr (iv, data, r3) \<Longrightarrow>
   lookup_event c data = Inr (coroutine, FILE, data_len) \<Longrightarrow>
   write_to_file E key [] r3 data_len iv [] = Inl e \<Longrightarrow>
     process_frame E c key r = Inl e"
  by (simp add: process_frame_def read_payload_def)

subsection \<open>The handshake\<close>

lemma handshake_errors:
  "handshake E c sk conn = (c', w, Inl e) \<Longrightarrow> e \<in> {OverflowError, ValueError, CryptoError}"
  unfolding handshake_def Let_def to_bytes_def
  by (auto split: sum.splits option.splits prod.splits if_splits)

lemma handshake_at_end:
  assumes "import_key E [] = None" and "length (export_key E (client_public_key c)) < 256 ^ 8"
  shows "handshake E c sk [] =
           (c\<lparr>reader := Some Stream, writer := Some Stream\<rparr>,
            \<lparr>written = [big_endian 8 (length (export_key E (client_public_key c))),
                         export_key E (client_public_key c)],
             closed = False\<rparr>,
            Inl ValueError)"
  using assms
  by (simp add: handshake_def Let_def to_bytes_def read_def int_from_bytes_def)

text \<open>
  \<^verbatim>\<open>create_connection\<close> catches ConnectionError only: any other exception of the loop,
  such as the KeyError of a header without \<^verbatim>\<open>'data_length'\<close>, leaves the coroutine
  after the writer is closed.
\<close>

lemma other_exception_leaves_connection:
  assumes "handshake E c session_key conn = (c1, w, Inr r)"
    and "process_incoming_events E c1 session_key r [] [] = (e, tasks, out)"
    and "e \<noteq> ConnectionError"
  shows "raised (create_connection E c session_key conn connection_event) = Some e"
    and "closed (wire (create_connection E c session_key conn connection_event))"
  using assms by (simp_all add: create_connection_def)

subsection \<open>Sending\<close>

lemma padding_arith:
  fixes x :: int
  shows "x + (16 - x mod 16) = 16 * (x div 16 + 1)"
    and "x < 16 * (x div 16 + 1)"
    and "16 * (x div 16 + 1) \<le> x + 16"
    and "x mod 16 \<noteq> 0 \<longrightarrow> 16 * (x div 16 + 1) = 16 * ((x + 15) div 16)"
    and "x mod 16 = 0 \<longrightarrow> 16 * (x div 16 + 1) = x + 16"
proof -
  define q where "q = x div 16"
  define r where "r = x mod 16"
  have r: "0 \<le> r" "r < 16" by (simp_all add: r_def)
  have x: "x = 16 * q + r" by (simp add: q_def r_def)
  show "x + (16 - x mod 16) = 16 * (x div 16 + 1)"
    unfolding q_def [symmetric] r_def [symmetric] using x by simp
  show "x < 16 * (x div 16 + 1)"
    unfolding q_def [symmetric] using x r by simp
  show "16 * (x div 16 + 1) \<le> x + 16"
    unfolding q_def [symmetric] using x r by simp
  show "x mod 16 = 0 \<longrightarrow> 16 * (x div 16 + 1) = x + 16"
    unfolding q_def [symmetric] r_def [symmetric] using x by simp
  show "x mod 16 \<noteq> 0 \<longrightarrow> 16 * (x div 16 + 1) = 16 * ((x + 15) div 16)"
  proof
    assume "x mod 16 \<noteq> 0"
    then have "0 < r" using r by (simp add: r_def less_le)
    have "(16 * q + (r + 15)) div 16 = q + (r + 15) div 16"
      by (rule div_mult_self4) simp
    moreover have "(r + 15) div 16 = 1" using r \<open>0 < r\<close> by linarith
    ultimately have "(x + 15) div 16 = q + 1" by (simp add: x add.assoc)
    then show "16 * (x div 16 + 1) = 16 * ((x + 15) div 16)" by (simp add: q_def)
  qed
qed

lemma to_bytes_length: "to_bytes len x = Inr bs \<Longrightarrow> length bs = len"
  by (auto simp: to_bytes_def big_endian_def split: if_splits)

lemma send_file_loop_hashes:
  "send_file_loop E key iv f file_hash ws = Inr (file_hash', ws') \<Longrightarrow> file_hash' = file_hash @ f"
proof (induction E key iv f file_hash ws rule: send_file_loop.induct)
  case (1 E key iv f file_hash ws)
  show ?case
  proof (cases "take 1024 f = []")
    case True
    with "1.prems" show ?thesis
      by (simp add: send_file_loop.simps [of E key iv f])
  next
    case False
    with "1.prems" obtain enc where
      enc: "sym_encrypt E key (take 1024 f) iv = Some enc" and
      rest: "send_file_loop E key iv (drop 1024 f) (file_hash @ take 1024 f) (ws @ [enc])
               = Inr (file_hash', ws')"
      by (simp add: send_file_loop.simps [of E key iv f] Let_def split: option.splits)
    from "1.IH" [OF refl False enc rest] show ?thesis by simp
  qed
qed

subsection \<open>Evaluating the small instance\<close>

lemma demo_fields:
  "sym_encrypt demo key data iv = Some (map (\<lambda>b. b + 1) data)"
  "sym_decrypt demo key data iv = Some (map (\<lambda>b. b - 1) data)"
  "asym_encrypt demo k data = Some data"
  "sha512 demo data = [sum_list data]"
  "json_loads demo [t, n] =
     Inr (JObject [(''event'', JStr (if t = 0 then ''view'' else ''message'')),
                   (''data_length'', JInt (int (unat n)))])"
  "json_dumps demo h = [if hdr_event h = ''view'' then 0 else 1, of_int (data_length h)]"
  "import_key demo [] = None"
  "import_key demo [n, e] = Some \<lparr>rsa_n = unat n, rsa_e = unat e, rsa_d = 0\<rparr>"
  "export_key demo k = [of_nat (rsa_n k), of_nat (rsa_e k)]"
  by (simp_all add: demo_def)

lemma alice_fields:
  "reader alice = None"
  "writer alice = None"
  "events alice = [''disconnect'' \<mapsto> (wrapper disconnect ''disconnect'', BYTES)]"
  "client_public_key alice = demo_public"
  "client_private_key alice = demo_private"
  by (simp_all add: alice_def init_def event_def disconnect_def Let_def)

lemma alice_connected_fields:
  "reader alice_connected = Some Stream"
  "writer alice_connected = Some Stream"
  "events alice_connected = [''disconnect'' \<mapsto> (wrapper disconnect ''disconnect'', BYTES)]"
  "server_public_key alice_connected = Some demo_public"
  "client_private_key alice_connected = demo_private"
  "encryptor alice_connected = Some [7]"
  by (simp_all add: alice_connected_def alice_fields)

lemma demo_keys:
  "rsa_n demo_public = 33" "rsa_e demo_public = 3"
  "rsa_n demo_private = 33" "rsa_d demo_private = 7"
  by (simp_all add: demo_public_def demo_private_def)

lemma upt_8: "[0..<8] = [0, 1, 2, 3, 4, 5, 6, 7]"
  by (simp add: upt_conv_Cons)

lemma to_bytes_8_2: "to_bytes 8 (Suc (Suc 0)) = Inr [0, 0, 0, 0, 0, 0, 0, 2]"
  by (simp add: to_bytes_def big_endian_def upt_8)

lemma to_bytes_2048_29: "to_bytes 2048 29 = Inr (big_endian 2048 29)"
  by (simp add: to_bytes_def)

lemma demo_send_file_loop:
  "send_file_loop demo [7] demo_iv [1, 1] [] [] = Inr ([1, 1], [[2, 2]])"
  by (simp add: send_file_loop.simps demo_fields)

lemma demo_send_file:
  "send_file demo alice_connected demo_iv ''view'' [1, 1] =
     Inr [demo_iv, [1, 1, 1, 1, 1, 1, 1, 3], [1, 17], [2, 2], big_endian 2048 29]"
  by (simp add: send_file_def demo_send_file_loop is_connected_def alice_connected_fields
      send_file_header_def demo_fields demo_keys py_pow_def int_from_bytes_def
      to_bytes_8_2 to_bytes_2048_29)

lemma demo_send:
  "send demo alice_connected demo_iv ''view'' [1, 1] =
     Inr [demo_iv, [1, 1, 1, 1, 1, 1, 1, 3], [1, 3], [2, 2], big_endian 2048 29]"
  by (simp add: send_def is_connected_def alice_connected_fields
      demo_fields demo_keys py_pow_def int_from_bytes_def to_bytes_8_2 to_bytes_2048_29)

lemma demo_utf8: "utf8_decode demo [104, 105] = Some ''hi''"
  by (simp add: demo_def char_of_def bit_0)

lemma demo_read_header:
  "read_frame_header demo [7] (demo_frame # r) = Inr (demo_iv, demo_header, [2, 2] # r)"
  by (simp add: read_frame_header_def read_checked_def read_def demo_fields demo_frame_def
      demo_iv_def int_from_bytes_def demo_header_def)

lemma demo_getitem:
  "getitem demo_header ''event'' = Inr (JStr ''view'')"
  "getitem demo_header ''data_length'' = Inr (JInt 2)"
  by (simp_all add: getitem_def demo_header_def)

lemma demo_lookup:
  "lookup_event alice_connected demo_header = Inr (default_event, BYTES, 2)"
  by (simp add: lookup_event_def demo_getitem as_int_def alice_connected_fields BUFFER_LIMIT_def)

lemma demo_payload:
  "read_payload demo [7] BYTES 2 demo_iv ([2, 2] # r) = Inr (Bytes [1, 1], [2], r)"
  by (simp add: read_payload_def read_checked_def read_def demo_fields)

lemma demo_verify:
  "verify_and_dispatch alice_connected h b [2] [demo_signature] = Inr ((h, b), [], [])"
  by (simp add: verify_and_dispatch_def read_2048_chunk demo_signature_def
      alice_connected_fields demo_keys int_from_bytes_zeros py_pow_def)
     (simp add: int_from_bytes_def)

lemma demo_verify_forged:
  "verify_and_dispatch alice_connected h b [2] [demo_forged] =
     Inr ((h, b), [''something wrong with the signature''], [])"
  by (simp add: verify_and_dispatch_def read_2048_chunk demo_forged_def
      alice_connected_fields demo_keys int_from_bytes_zeros py_pow_def)
     (simp add: int_from_bytes_def)

lemma demo_process_frame:
  "process_frame demo alice_connected [7] [demo_frame, demo_signature] =
     Inr ((default_event, Bytes [1, 1]), [], [])"
  by (simp add: process_frame_def demo_read_header demo_lookup demo_payload demo_verify)

lemma demo_process_forged:
  "process_frame demo alice_connected [7] [demo_frame, demo_forged] =
     Inr ((default_event, Bytes [1, 1]), [''something wrong with the signature''], [])"
  by (simp add: process_frame_def demo_read_header demo_lookup demo_payload demo_verify_forged)

lemma demo_process_unsigned:
  "process_frame demo alice_connected [7] [demo_frame] =
     Inr ((default_event, Bytes [1, 1]), [''something wrong with the signature''], [])"
  by (simp add: process_frame_def demo_read_header demo_lookup demo_payload
      verify_and_dispatch_def read_def alice_connected_fields demo_keys py_pow_def
      int_from_bytes_def)

lemma demo_loop_forged:
  "process_incoming_events demo alice_connected [7] [demo_frame, demo_forged] [] [] =
     (ConnectionError, [(default_event, Bytes [1, 1])], [''something wrong with the signature''])"
  by (simp add: loop_continues [OF demo_process_forged] loop_stops [OF process_frame_at_end])

lemma demo_loop_unsigned:
  "process_incoming_events demo alice_connected [7] [demo_frame] [] [] =
     (ConnectionError, [(default_event, Bytes [1, 1])], [''something wrong with the signature''])"
  by (simp add: loop_continues [OF demo_process_unsigned] loop_stops [OF process_frame_at_end])

lemma demo_loop_signed:
  "process_incoming_events demo alice_connected [7] [demo_frame, demo_signature] [] [] =
     (ConnectionError, [(default_event, Bytes [1, 1])], [])"
  by (simp add: loop_continues [OF demo_process_frame] loop_stops [OF process_frame_at_end])

lemma to_bytes_8_1: "to_bytes 8 (Suc 0) = Inr [0, 0, 0, 0, 0, 0, 0, 1]"
  by (simp add: to_bytes_def big_endian_def upt_8)

lemma demo_handshake:
  "handshake demo alice [7] demo_stream =
     (alice_connected,
      \<lparr>written = [[0, 0, 0, 0, 0, 0, 0, 2], [33, 3], [0, 0, 0, 0, 0, 0, 0, 1], [7]],
       closed = False\<rparr>,
      Inr [demo_frame, demo_signature])"
  by (simp add: handshake_def demo_stream_def read_def int_from_bytes_def demo_fields alice_fields
      demo_keys to_bytes_8_2 to_bytes_8_1 alice_connected_def demo_public_def)

lemma is_prime_3: "is_prime 3"
  by (simp add: is_prime_def) code_simp

lemma is_prime_11: "is_prime 11"
  by (simp add: is_prime_def) code_simp

section \<open>The claims\<close>

text \<open>
  Claim C10. After construction the registration table always has an entry for
  \<^verbatim>\<open>'disconnect'\<close>: the constructor registers one, and a registration only inserts or
  overwrites. So for every sequence \<open>regs\<close> of registration calls (name, delivery mode,
  function) made on a fresh client the entry is there, and when the receive loop ends
  with ConnectionError the lookup \<^verbatim>\<open>self.events['disconnect']\<close> succeeds:
  \<^verbatim>\<open>create_connection\<close> ends without an exception.
\<close>

theorem disconnect_always_registered:
  "events (foldl (\<lambda>c (nm, m, f). event nm m f c) (init n keys) regs) ''disconnect'' \<noteq> None
   \<and> (handshake E (foldl (\<lambda>c (nm, m, f). event nm m f c) (init n keys) regs)
          session_key conn = (c1, w, Inr r)
        \<and> process_incoming_events E c1 session_key r [] [] = (ConnectionError, tasks, out) \<longrightarrow>
          events c1 ''disconnect'' \<noteq> None
        \<and> raised (create_connection E
              (foldl (\<lambda>c (nm, m, f). event nm m f c) (init n keys) regs)
              session_key conn connection_event) = None)"
proof -
  let ?c = "foldl (\<lambda>c (nm, m, f). event nm m f c) (init n keys) regs"
  have reg: "events ?c ''disconnect'' \<noteq> None"
    by (rule registrations_keep) (simp add: init_registers_disconnect)
  have path: "events c1 ''disconnect'' \<noteq> None
        \<and> raised (create_connection E ?c session_key conn connection_event) = None"
    if hs: "handshake E ?c session_key conn = (c1, w, Inr r)"
      and lp: "process_incoming_events E c1 session_key r [] [] = (ConnectionError, tasks, out)"
  proof -
    have ev: "events c1 ''disconnect'' \<noteq> None"
      using handshake_events [OF hs] reg by simp
    then obtain registration where "events c1 ''disconnect'' = Some registration" by auto
    with hs lp have "raised (create_connection E ?c session_key conn connection_event) = None"
      by (simp add: create_connection_def)
    with ev show ?thesis by simp
  qed
  from reg path show ?thesis by blast
qed

theorem disconnect_always_registered_witness:
  "events (foldl (\<lambda>c (nm, m, f). event nm m f c) (init ''alice'' (demo_public, demo_private))
             [(None, BYTES, on_pong), (Some ''disconnect'', FILE, view)]) ''disconnect''
     = Some (wrapper view ''disconnect'', FILE)
   \<and> foldl (\<lambda>c (nm, m, f). event nm m f c) (init ''alice'' (demo_public, demo_private)) [] = alice
   \<and> handshake demo alice [7] demo_stream =
       (alice_connected,
        \<lparr>written = [[0, 0, 0, 0, 0, 0, 0, 2], [33, 3], [0, 0, 0, 0, 0, 0, 0, 1], [7]],
         closed = False\<rparr>,
        Inr [demo_frame, demo_signature])
   \<and> process_incoming_events demo alice_connected [7] [demo_frame, demo_signature] [] [] =
       (ConnectionError, [(default_event, Bytes [1, 1])], [])
   \<and> events alice_connected ''disconnect'' = Some (wrapper disconnect ''disconnect'', BYTES)
   \<and> raised (create_connection demo alice [7] demo_stream True) = None"
proof -
  have two: "events (foldl (\<lambda>c (nm, m, f). event nm m f c)
               (init ''alice'' (demo_public, demo_private))
               [(None, BYTES, on_pong), (Some ''disconnect'', FILE, view)]) ''disconnect''
             = Some (wrapper view ''disconnect'', FILE)"
    by (simp add: events_event)
  have none: "foldl (\<lambda>c (nm, m, f). event nm m f c)
                (init ''alice'' (demo_public, demo_private)) [] = alice"
    by (simp add: alice_def)
  show ?thesis
    using disconnect_always_registered [of "''alice''" "(demo_public, demo_private)" "[]"
        demo "[7]" demo_stream alice_connected
        "\<lparr>written = [[0, 0, 0, 0, 0, 0, 0, 2], [33, 3], [0, 0, 0, 0, 0, 0, 0, 1], [7]],
          closed = False\<rparr>"
        "[demo_frame, demo_signature]" "[(default_event, Bytes [1, 1])]" "[]" True]
      two none demo_handshake demo_loop_signed
    by (simp add: alice_connected_fields)
qed

text \<open>
  Claim C6. The coroutine stored by a registration is \<^verbatim>\<open>wrapper\<close> for the registered
  function \<open>f\<close> and the name \<open>en\<close> (the name given, or else the function's own name).
  Run on a payload it calls \<open>f\<close> with no argument when \<open>en\<close> is \<^verbatim>\<open>connect\<close>,
  \<^verbatim>\<open>disconnect\<close> or \<^verbatim>\<open>pong\<close>; with the payload decoded as UTF-8 text when \<open>en\<close> is
  \<^verbatim>\<open>message\<close> (the payload being bytes that decode); and with the payload itself, bytes
  or temporary file, under every other name.
\<close>

theorem wrapper_adapts_arguments:
  assumes "en = (case nm of Some n \<Rightarrow> n | None \<Rightarrow> func_name f)"
  shows "events (event nm m f c) en = Some (wrapper f en, m)
       \<and> (en \<in> {''connect'', ''disconnect'', ''pong''} \<longrightarrow>
            run_handler E (wrapper f en) data = Inr (Some (f, [])))
       \<and> (en = ''message'' \<and> utf8_decode E b = Some s \<longrightarrow>
            run_handler E (wrapper f en) (Bytes b) = Inr (Some (f, [Text s])))
       \<and> (en \<notin> {''connect'', ''disconnect'', ''pong'', ''message''} \<longrightarrow>
            run_handler E (wrapper f en) data = Inr (Some (f, [Raw data])))"
proof -
  have 1: "events (event nm m f c) en = Some (wrapper f en, m)"
    using assms by (simp add: events_event)
  have 2: "en \<in> {''connect'', ''disconnect'', ''pong''} \<Longrightarrow>
            run_handler E (wrapper f en) data = Inr (Some (f, []))"
    by (auto simp: run_handler_def run_wrapper_def reserved_events_def)
  have 3: "en = ''message'' \<and> utf8_decode E b = Some s \<Longrightarrow>
            run_handler E (wrapper f en) (Bytes b) = Inr (Some (f, [Text s]))"
    by (simp add: run_handler_def run_wrapper_def reserved_events_def decode_def)
  have 4: "en \<notin> {''connect'', ''disconnect'', ''pong'', ''message''} \<Longrightarrow>
            run_handler E (wrapper f en) data = Inr (Some (f, [Raw data]))"
    by (simp add: run_handler_def run_wrapper_def reserved_events_def)
  from 1 2 3 4 show ?thesis by blast
qed

theorem wrapper_adapts_arguments_witness:
  "events (event None BYTES on_pong alice) ''pong'' = Some (wrapper on_pong ''pong'', BYTES)
   \<and> run_handler demo (wrapper on_pong ''pong'') (Bytes [1, 1]) = Inr (Some (on_pong, []))
   \<and> events (event (Some ''message'') BYTES on_text alice) ''message''
       = Some (wrapper on_text ''message'', BYTES)
   \<and> utf8_decode demo [104, 105] = Some ''hi''
   \<and> run_handler demo (wrapper on_text ''message'') (Bytes [104, 105])
       = Inr (Some (on_text, [Text ''hi'']))
   \<and> events (event None FILE view alice) ''view'' = Some (wrapper view ''view'', FILE)
   \<and> run_handler demo (wrapper view ''view'') (TmpFile [1, 1])
       = Inr (Some (view, [Raw (TmpFile [1, 1])]))"
proof -
  have a: "''pong'' = (case None of Some n \<Rightarrow> n | None \<Rightarrow> func_name on_pong)"
    by (simp add: on_pong_def)
  have b: "''message'' = (case Some ''message'' of Some n \<Rightarrow> n | None \<Rightarrow> func_name on_text)"
    by simp
  have c: "''view'' = (case None of Some n \<Rightarrow> n | None \<Rightarrow> func_name view)"
    by (simp add: view_def)
  show ?thesis
    using wrapper_adapts_arguments [OF a, of BYTES alice demo "Bytes [1, 1]"]
      wrapper_adapts_arguments [OF b, of BYTES alice demo _ "[104, 105]" "''hi''"]
      wrapper_adapts_arguments [OF c, of FILE alice demo "TmpFile [1, 1]"]
      demo_utf8
    by simp
qed

text \<open>
  Claim C4, as amended. For a file of size \<open>S\<close>, \<^verbatim>\<open>send_file\<close> declares the
  \<^verbatim>\<open>data_length\<close> \<open>S + (16 - S mod 16) = 16 * (S div 16 + 1)\<close>: the least multiple of 16
  strictly above \<open>S\<close>. For \<open>S\<close> not a multiple of 16 that is \<open>S\<close> rounded up; for \<open>S\<close> a
  multiple of 16 it is \<open>S + 16\<close>. The header carrying it is the third item written.
\<close>

theorem send_file_declared_length:
  "data_length (send_file_header ev f) = 16 * (int (length f) div 16 + 1)
   \<and> 16 dvd data_length (send_file_header ev f)
   \<and> int (length f) < data_length (send_file_header ev f)
   \<and> data_length (send_file_header ev f) \<le> int (length f) + 16
   \<and> (int (length f) mod 16 \<noteq> 0 \<longrightarrow>
        data_length (send_file_header ev f) = 16 * ((int (length f) + 15) div 16))
   \<and> (int (length f) mod 16 = 0 \<longrightarrow>
        data_length (send_file_header ev f) = int (length f) + 16)
   \<and> (send_file E c iv ev f = Inr ws \<longrightarrow>
        (\<exists>key. encryptor c = Some key \<and>
           sym_encrypt E key
             (json_dumps E \<lparr>hdr_event = ev, data_length = 16 * (int (length f) div 16 + 1)\<rparr>) iv
           = Some (ws ! 2)))"
proof -
  have eq: "data_length (send_file_header ev f) = 16 * (int (length f) div 16 + 1)"
    by (simp add: send_file_header_def Let_def padding_arith(1))
  have hd: "send_file_header ev f = \<lparr>hdr_event = ev, data_length = 16 * (int (length f) div 16 + 1)\<rparr>"
    using eq by (simp add: send_file_header_def Let_def)
  have wire: "send_file E c iv ev f = Inr ws \<longrightarrow>
        (\<exists>key. encryptor c = Some key \<and>
           sym_encrypt E key
             (json_dumps E \<lparr>hdr_event = ev, data_length = 16 * (int (length f) div 16 + 1)\<rparr>) iv
           = Some (ws ! 2))"
    unfolding send_file_def Let_def hd
    by (auto split: if_splits option.splits sum.splits prod.splits)
  have mult: "16 dvd data_length (send_file_header ev f)"
    unfolding eq by (rule dvd_triv_left)
  have above: "int (length f) < data_length (send_file_header ev f)"
    unfolding eq by (rule padding_arith(2))
  have least: "data_length (send_file_header ev f) \<le> int (length f) + 16"
    unfolding eq by (rule padding_arith(3))
  have up: "int (length f) mod 16 \<noteq> 0 \<longrightarrow>
        data_length (send_file_header ev f) = 16 * ((int (length f) + 15) div 16)"
    unfolding eq by (rule padding_arith(4))
  have block: "int (length f) mod 16 = 0 \<longrightarrow>
        data_length (send_file_header ev f) = int (length f) + 16"
    unfolding eq by (rule padding_arith(5))
  show ?thesis
    by (intro conjI) (rule eq mult above least up block wire)+
qed

theorem send_file_declared_length_witness:
  "send_file demo alice_connected demo_iv ''view'' [1, 1] =
     Inr [demo_iv, [1, 1, 1, 1, 1, 1, 1, 3], [1, 17], [2, 2], big_endian 2048 29]
   \<and> encryptor alice_connected = Some [7]
   \<and> sym_encrypt demo [7] (json_dumps demo \<lparr>hdr_event = ''view'', data_length = 16\<rparr>) demo_iv
       = Some [1, 17]
   \<and> int (length [1, 1 :: byte]) mod 16 = 2
   \<and> data_length (send_file_header ''view'' [1, 1]) = 16
   \<and> int (length demo_iv) mod 16 = 0
   \<and> data_length (send_file_header ''view'' demo_iv) = 32"
proof -
  have len: "length demo_iv = 16" by (simp add: demo_iv_def)
  show ?thesis
    using send_file_declared_length [of "''view''" "[1, 1]" demo alice_connected demo_iv
        "[demo_iv, [1, 1, 1, 1, 1, 1, 1, 3], [1, 17], [2, 2], big_endian 2048 29]"]
      send_file_declared_length [of "''view''" demo_iv]
      demo_send_file
    by (simp add: alice_connected_fields demo_fields len)
qed

text \<open>
  Claim C4 as stated fails on a file of 16 bytes: the size is a multiple of 16 and the
  declared length is 32, not 16.
\<close>

theorem send_file_declared_length_counterexample:
  "length [0, 0, 0, 0, 0, 0, 0, 0, 0, 0, 0, 0, 0, 0, 0, 0 :: byte] mod 16 = 0
   \<and> data_length (send_file_header ''file_edit'' [0, 0, 0, 0, 0, 0, 0, 0, 0, 0, 0, 0, 0, 0, 0, 0])
       \<noteq> int (length [0, 0, 0, 0, 0, 0, 0, 0, 0, 0, 0, 0, 0, 0, 0, 0 :: byte])"
  by (simp add: send_file_header_def)

text \<open>
  Claim C8. When \<^verbatim>\<open>send\<close> or \<^verbatim>\<open>send_file\<close> completes, the last item written is the
  2048-byte big-endian form of \<open>h ^ d mod n\<close>, where \<open>h\<close> is the SHA-512 digest of the
  plaintext (the \<^verbatim>\<open>data\<close> passed in, or the contents of the file) and \<open>(d, n)\<close> the
  client's private key. The ciphertext does not enter it.
\<close>

theorem signature_over_plaintext:
  "(send E c iv ev data = Inr ws \<longrightarrow>
      (\<exists>signature.
         py_pow (int_from_bytes (sha512 E data))
           (rsa_d (client_private_key c)) (rsa_n (client_private_key c)) = Inr signature
         \<and> to_bytes 2048 signature = Inr (last ws) \<and> length (last ws) = 2048))
   \<and> (send_file E c iv ev f = Inr ws' \<longrightarrow>
      (\<exists>signature.
         py_pow (int_from_bytes (sha512 E f))
           (rsa_d (client_private_key c)) (rsa_n (client_private_key c)) = Inr signature
         \<and> to_bytes 2048 signature = Inr (last ws') \<and> length (last ws') = 2048))"
proof -
  have a: "\<exists>signature.
         py_pow (int_from_bytes (sha512 E data))
           (rsa_d (client_private_key c)) (rsa_n (client_private_key c)) = Inr signature
         \<and> to_bytes 2048 signature = Inr (last ws) \<and> length (last ws) = 2048"
    if "send E c iv ev data = Inr ws"
    using that unfolding send_def Let_def
    by (auto split: if_splits option.splits sum.splits dest: to_bytes_length)
  have b: "\<exists>signature.
         py_pow (int_from_bytes (sha512 E f))
           (rsa_d (client_private_key c)) (rsa_n (client_private_key c)) = Inr signature
         \<and> to_bytes 2048 signature = Inr (last ws') \<and> length (last ws') = 2048"
    if "send_file E c iv ev f = Inr ws'"
    using that unfolding send_file_def Let_def
    by (auto split: if_splits option.splits sum.splits prod.splits
        dest!: send_file_loop_hashes dest: to_bytes_length)
  from a b show ?thesis by blast
qed

theorem signature_over_plaintext_witness:
  "send demo alice_connected demo_iv ''view'' [1, 1] =
     Inr [demo_iv, [1, 1, 1, 1, 1, 1, 1, 3], [1, 3], [2, 2], big_endian 2048 29]
   \<and> send_file demo alice_connected demo_iv ''view'' [1, 1] =
     Inr [demo_iv, [1, 1, 1, 1, 1, 1, 1, 3], [1, 17], [2, 2], big_endian 2048 29]
   \<and> sha512 demo [1, 1] = [2]
   \<and> py_pow (int_from_bytes [2]) (rsa_d (client_private_key alice_connected))
        (rsa_n (client_private_key alice_connected)) = Inr 29
   \<and> to_bytes 2048 29 = Inr (big_endian 2048 29)
   \<and> length (big_endian 2048 29) = 2048"
  using signature_over_plaintext [of demo alice_connected demo_iv "''view''" "[1, 1]"
      "[demo_iv, [1, 1, 1, 1, 1, 1, 1, 3], [1, 3], [2, 2], big_endian 2048 29]" "[1, 1]"
      "[demo_iv, [1, 1, 1, 1, 1, 1, 1, 3], [1, 17], [2, 2], big_endian 2048 29]"]
    demo_send demo_send_file
  by (simp add: demo_fields alice_connected_fields demo_keys py_pow_def int_from_bytes_def
      to_bytes_2048_29 big_endian_def)

text \<open>
  Claim C7. For a frame whose event name has no registration, the coroutine is
  \<^verbatim>\<open>default_event\<close>, which does nothing, and the delivery mode follows the declared
  length: up to \<open>256 * 1024 * 1024\<close> the payload is read in one piece and decrypted
  into memory (\<open>BYTES\<close>); above it the payload goes through \<^verbatim>\<open>write_to_file\<close> into a
  temporary file (\<open>FILE\<close>).
\<close>

theorem unregistered_event_default:
  assumes "getitem data ''event'' = Inr (JStr s)"
    and "events c s = None"
    and "getitem data ''data_length'' = Inr data_len"
    and "as_int data_len = Some n"
  shows "lookup_event c data =
           Inr (default_event, if n > 256 * 1024 * 1024 then FILE else BYTES, n)
       \<and> run_handler E default_event p = Inr None
       \<and> (read_frame_header E key r = Inr (iv, data, r3)
            \<and> process_frame E c key r = Inr ((coroutine, buffer), out, r') \<longrightarrow>
              coroutine = default_event
            \<and> (n \<le> 256 * 1024 * 1024 \<longrightarrow>
                 (\<exists>encrypted r4 b. read_checked n r3 = Inr (encrypted, r4)
                    \<and> sym_decrypt E key encrypted iv = Some b \<and> buffer = Bytes b))
            \<and> (n > 256 * 1024 * 1024 \<longrightarrow>
                 (\<exists>digest f r4. write_to_file E key [] r3 n iv [] = Inr (digest, f, r4)
                    \<and> buffer = TmpFile f)))"
proof -
  have lk: "lookup_event c data =
           Inr (default_event, if n > 256 * 1024 * 1024 then FILE else BYTES, n)"
    using assms by (simp add: lookup_event_def BUFFER_LIMIT_def)
  have noop: "run_handler E default_event p = Inr None"
    by (simp add: run_handler_def)
  have frame: "coroutine = default_event
            \<and> (n \<le> 256 * 1024 * 1024 \<longrightarrow>
                 (\<exists>encrypted r4 b. read_checked n r3 = Inr (encrypted, r4)
                    \<and> sym_decrypt E key encrypted iv = Some b \<and> buffer = Bytes b))
            \<and> (n > 256 * 1024 * 1024 \<longrightarrow>
                 (\<exists>digest f r4. write_to_file E key [] r3 n iv [] = Inr (digest, f, r4)
                    \<and> buffer = TmpFile f))"
    if hdr: "read_frame_header E key r = Inr (iv, data, r3)"
      and pf: "process_frame E c key r = Inr ((coroutine, buffer), out, r')"
  proof -
    let ?m = "if n > 256 * 1024 * 1024 then FILE else BYTES"
    from pf hdr lk obtain b hsh r4 where
      pl: "read_payload E key ?m n iv r3 = Inr (b, hsh, r4)" and
      vd: "verify_and_dispatch c default_event b hsh r4 = Inr ((coroutine, buffer), out, r')"
      by (auto simp: process_frame_def split: sum.splits)
    from vd have cb: "coroutine = default_event \<and> buffer = b"
      by (auto simp: verify_and_dispatch_def Let_def split: prod.splits option.splits sum.splits)
    show ?thesis
    proof (cases "n > 256 * 1024 * 1024")
      case True
      with pl cb show ?thesis
        by (auto simp: read_payload_def split: sum.splits)
    next
      case False
      with pl cb show ?thesis
        by (auto simp: read_payload_def split: sum.splits option.splits)
    qed
  qed
  from lk noop frame show ?thesis by blast
qed

theorem unregistered_event_default_witness:
  "getitem demo_header ''event'' = Inr (JStr ''view'')
   \<and> events alice_connected ''view'' = None
   \<and> getitem demo_header ''data_length'' = Inr (JInt 2)
   \<and> as_int (JInt 2) = Some 2
   \<and> lookup_event alice_connected demo_header = Inr (default_event, BYTES, 2)
   \<and> lookup_event alice_connected
         (JObject [(''event'', JStr ''view''), (''data_length'', JInt 268435456)])
       = Inr (default_event, BYTES, 268435456)
   \<and> lookup_event alice_connected
         (JObject [(''event'', JStr ''view''), (''data_length'', JInt 268435457)])
       = Inr (default_event, FILE, 268435457)
   \<and> run_handler demo default_event (Bytes [1, 1]) = Inr None
   \<and> read_frame_header demo [7] [demo_frame, demo_signature]
       = Inr (demo_iv, demo_header, [[2, 2], demo_signature])
   \<and> process_frame demo alice_connected [7] [demo_frame, demo_signature]
       = Inr ((default_event, Bytes [1, 1]), [], [])
   \<and> read_checked 2 [[2, 2], demo_signature] = Inr ([2, 2], [demo_signature])
   \<and> sym_decrypt demo [7] [2, 2] demo_iv = Some [1, 1]"
proof -
  have none: "events alice_connected ''view'' = None"
    by (simp add: alice_connected_fields)
  have ev: "getitem (JObject [(''event'', JStr ''view''), (''data_length'', JInt k)]) ''event''
              = Inr (JStr ''view'')" for k
    by (simp add: getitem_def)
  have ln: "getitem (JObject [(''event'', JStr ''view''), (''data_length'', JInt k)])
              ''data_length'' = Inr (JInt k)" for k
    by (simp add: getitem_def)
  have ai: "as_int (JInt k) = Some k" for k
    by (simp add: as_int_def)
  have rc: "read_checked 2 [[2, 2], demo_signature] = Inr ([2, 2], [demo_signature])"
    by (simp add: read_checked_def read_def)
  show ?thesis
    using unregistered_event_default [OF demo_getitem(1) none demo_getitem(2) ai [of 2],
        of demo "Bytes [1, 1]" "[7]" "[demo_frame, demo_signature]" demo_iv
        "[[2, 2], demo_signature]" default_event "Bytes [1, 1]" "[]" "[]"]
      unregistered_event_default [OF ev [of 268435456] none ln [of 268435456] ai [of 268435456],
        of demo "Bytes [1, 1]"]
      unregistered_event_default [OF ev [of 268435457] none ln [of 268435457] ai [of 268435457],
        of demo "Bytes [1, 1]"]
      demo_read_header [of "[demo_signature]"] demo_process_frame rc demo_getitem none
    by (simp add: demo_fields ai)
qed

text \<open>
  Claim C3. Once header and payload of a frame are read, the loop reads the signature
  with \<^verbatim>\<open>read(2048)\<close>, raises it to the public exponent of the peer's key modulo its
  modulus, and compares the result with the SHA-512 digest of the plaintext payload read
  as a big-endian integer. On mismatch one line is printed; in both cases the event is
  dispatched and the loop goes on to the next frame.
\<close>

theorem signature_mismatch_still_dispatches:
  assumes "read_frame_header E key r = Inr (iv, data, r3)"
    and "lookup_event c data = Inr (coroutine, data_mode, data_len)"
    and "read_payload E key data_mode data_len iv r3 = Inr (buffer, hsh, r4)"
    and "server_public_key c = Some k"
    and "rsa_n k \<noteq> 0"
  shows "hsh = sha512 E (contents buffer)
       \<and> process_frame E c key r =
           Inr ((coroutine, buffer),
                (if int_from_bytes (sha512 E (contents buffer))
                      \<noteq> int_from_bytes (fst (read 2048 r4)) ^ rsa_e k mod rsa_n k
                 then [''something wrong with the signature''] else []),
                snd (read 2048 r4))
       \<and> process_incoming_events E c key r tasks out =
           process_incoming_events E c key (snd (read 2048 r4))
             (tasks @ [(coroutine, buffer)])
             (out @ (if int_from_bytes (sha512 E (contents buffer))
                         \<noteq> int_from_bytes (fst (read 2048 r4)) ^ rsa_e k mod rsa_n k
                     then [''something wrong with the signature''] else []))"
proof -
  have dg: "hsh = sha512 E (contents buffer)"
    using assms(3) by (rule read_payload_digest)
  note pf = process_frame_dispatches [OF assms]
  from loop_continues [OF pf] dg pf show ?thesis by simp
qed

theorem signature_mismatch_still_dispatches_witness:
  "read_frame_header demo [7] [demo_frame, demo_forged]
     = Inr (demo_iv, demo_header, [[2, 2], demo_forged])
   \<and> lookup_event alice_connected demo_header = Inr (default_event, BYTES, 2)
   \<and> read_payload demo [7] BYTES 2 demo_iv [[2, 2], demo_forged]
       = Inr (Bytes [1, 1], [2], [demo_forged])
   \<and> server_public_key alice_connected = Some demo_public
   \<and> rsa_n demo_public = 33
   \<and> sha512 demo [1, 1] = [2]
   \<and> length demo_forged = 2048
   \<and> int_from_bytes demo_forged ^ rsa_e demo_public mod rsa_n demo_public = 26
   \<and> process_frame demo alice_connected [7] [demo_frame, demo_forged]
       = Inr ((default_event, Bytes [1, 1]), [''something wrong with the signature''], [])
   \<and> process_incoming_events demo alice_connected [7] [demo_frame, demo_forged] [] []
       = (ConnectionError, [(default_event, Bytes [1, 1])],
          [''something wrong with the signature''])"
proof -
  have n: "rsa_n demo_public \<noteq> 0" by (simp add: demo_keys)
  have sg: "int_from_bytes demo_forged = 5"
    by (simp add: demo_forged_def int_from_bytes_zeros) (simp add: int_from_bytes_def)
  have len: "length demo_forged = 2048"
    by (simp add: demo_forged_def)
  have h2: "int_from_bytes [2] = 2"
    by (simp add: int_from_bytes_def)
  show ?thesis
    using signature_mismatch_still_dispatches
        [OF demo_read_header [of "[demo_forged]"] demo_lookup demo_payload [of "[demo_forged]"]
          alice_connected_fields(4) n, where tasks = "[]" and out = "[]"]
      demo_read_header [of "[demo_forged]"] demo_payload [of "[demo_forged]"] demo_loop_forged
      demo_lookup
    by (simp add: alice_connected_fields demo_keys demo_fields sg len h2 read_2048_chunk)
qed

text \<open>
  Claim C1, at the signature. When \<^verbatim>\<open>read(2048)\<close> returns fewer than 2048 bytes the
  loop does not raise ConnectionError: the bytes it got are taken for the signature and
  the frame is dispatched. (The other reads of the frame are checked: lemmas
  \<open>short_iv_raises\<close> to \<open>short_streamed_payload_raises\<close>.)
\<close>

theorem short_signature_read_dispatches:
  assumes "read_frame_header E key r = Inr (iv, data, r3)"
    and "lookup_event c data = Inr (coroutine, data_mode, data_len)"
    and "read_payload E key data_mode data_len iv r3 = Inr (buffer, hsh, r4)"
    and "server_public_key c = Some k"
    and "rsa_n k \<noteq> 0"
    and "length (fst (read 2048 r4)) < 2048"
  shows "process_frame E c key r \<noteq> Inl ConnectionError
       \<and> (\<exists>out. process_frame E c key r =
             Inr ((coroutine, buffer), out, snd (read 2048 r4)))"
  using process_frame_dispatches [OF assms(1-5)] by simp

theorem short_signature_read_dispatches_witness:
  "read_frame_header demo [7] [demo_frame] = Inr (demo_iv, demo_header, [[2, 2]])
   \<and> lookup_event alice_connected demo_header = Inr (default_event, BYTES, 2)
   \<and> read_payload demo [7] BYTES 2 demo_iv [[2, 2]] = Inr (Bytes [1, 1], [2], [])
   \<and> server_public_key alice_connected = Some demo_public
   \<and> rsa_n demo_public = 33
   \<and> read 2048 [] = ([], [])
   \<and> process_frame demo alice_connected [7] [demo_frame]
       = Inr ((default_event, Bytes [1, 1]), [''something wrong with the signature''], [])
   \<and> process_incoming_events demo alice_connected [7] [demo_frame] [] []
       = (ConnectionError, [(default_event, Bytes [1, 1])],
          [''something wrong with the signature''])"
proof -
  have n: "rsa_n demo_public \<noteq> 0" by (simp add: demo_keys)
  have short: "length (fst (read 2048 [])) < 2048" by (simp add: read_def)
  show ?thesis
    using short_signature_read_dispatches
        [OF demo_read_header [of "[]"] demo_lookup demo_payload [of "[]"]
          alice_connected_fields(4) n short]
      demo_read_header [of "[]"] demo_payload [of "[]"] demo_process_unsigned demo_loop_unsigned
      demo_lookup
    by (simp add: alice_connected_fields demo_keys read_def)
qed

text \<open>
  Claim C2, on the code. The two reads of the handshake, \<^verbatim>\<open>reader.read(8)\<close> and
  \<^verbatim>\<open>reader.read(key_len)\<close>, are not checked: no path of the handshake raises
  ConnectionError, and none leaves \<^verbatim>\<open>create_connection\<close>. When the peer closes the stream
  at once, both reads return \<^verbatim>\<open>b''\<close>, \<^verbatim>\<open>RSA.import_key\<close> rejects the empty key with
  ValueError, and the exception leaves the coroutine with \<^verbatim>\<open>self.reader\<close> and
  \<^verbatim>\<open>self.writer\<close> still set and the writer not closed.
\<close>

theorem handshake_short_read_unchecked:
  "snd (snd (handshake E c session_key conn)) \<noteq> Inl ConnectionError
   \<and> raised (create_connection E c session_key conn connection_event) \<noteq> Some ConnectionError
   \<and> (import_key E [] = None \<and> length (export_key E (client_public_key c)) < 256 ^ 8 \<longrightarrow>
        raised (create_connection E c session_key [] connection_event) = Some ValueError
        \<and> is_connected (final (create_connection E c session_key [] connection_event))
        \<and> writer (final (create_connection E c session_key [] connection_event)) = Some Stream
        \<and> \<not> closed (wire (create_connection E c session_key [] connection_event)))"
proof -
  obtain c' w res where hs: "handshake E c session_key conn = (c', w, res)"
    by (cases "handshake E c session_key conn") auto
  have a: "snd (snd (handshake E c session_key conn)) \<noteq> Inl ConnectionError"
    using handshake_errors [of E c session_key conn c' w] hs by (cases res) auto
  have b: "raised (create_connection E c session_key conn connection_event) \<noteq> Some ConnectionError"
  proof (cases res)
    case (Inl e)
    with hs a show ?thesis by (simp add: create_connection_def)
  next
    case (Inr r)
    with hs show ?thesis
      by (auto simp: create_connection_def Let_def split: prod.splits option.splits)
  qed
  have c: "raised (create_connection E c session_key [] connection_event) = Some ValueError
        \<and> is_connected (final (create_connection E c session_key [] connection_event))
        \<and> writer (final (create_connection E c session_key [] connection_event)) = Some Stream
        \<and> \<not> closed (wire (create_connection E c session_key [] connection_event))"
    if "import_key E [] = None" "length (export_key E (client_public_key c)) < 256 ^ 8"
    by (simp add: create_connection_def handshake_at_end [OF that] is_connected_def)
  from a b c show ?thesis by blast
qed

theorem handshake_short_read_unchecked_witness:
  "import_key demo [] = None
   \<and> length (export_key demo (client_public_key alice)) = 2
   \<and> raised (create_connection demo alice [7] [] True) = Some ValueError
   \<and> is_connected (final (create_connection demo alice [7] [] True))
   \<and> writer (final (create_connection demo alice [7] [] True)) = Some Stream
   \<and> closed (wire (create_connection demo alice [7] [] True)) = False"
  using handshake_short_read_unchecked [of demo alice "[7]" "[]" True]
  by (simp add: demo_fields alice_fields demo_keys)

text \<open>
  Claim C9. When the receive loop ends with ConnectionError, \<^verbatim>\<open>create_connection\<close>
  schedules the coroutine registered under \<^verbatim>\<open>'disconnect'\<close> once, after the tasks the loop
  has scheduled, with argument \<^verbatim>\<open>None\<close>; run, it calls the registered function with no
  argument. The writer is closed, \<^verbatim>\<open>self.reader\<close> and \<^verbatim>\<open>self.writer\<close> are \<^verbatim>\<open>None\<close>, and no
  exception leaves the coroutine. (On a client built by the constructor and
  registration calls the entry under \<^verbatim>\<open>'disconnect'\<close> always has the form assumed
  here: lemma \<open>disconnect_registration\<close>.)
\<close>

theorem connection_error_disconnects:
  assumes "handshake E c session_key conn = (c1, w, Inr r)"
    and "process_incoming_events E c1 session_key r [] [] = (ConnectionError, tasks, out)"
    and "events c ''disconnect'' = Some (wrapper f ''disconnect'', m)"
  shows "create_connection E c session_key conn connection_event =
           \<lparr>final = c1\<lparr>reader := None, writer := None\<rparr>,
            wire = w\<lparr>closed := True\<rparr>,
            raised = None,
            scheduled = tasks @ [(wrapper f ''disconnect'', PyNone)],
            printed = out,
            connection_event_set = connection_event\<rparr>
       \<and> run_handler E (wrapper f ''disconnect'') PyNone = Inr (Some (f, []))
       \<and> reader (final (create_connection E c session_key conn connection_event)) = None
       \<and> writer (final (create_connection E c session_key conn connection_event)) = None
       \<and> closed (wire (create_connection E c session_key conn connection_event))"
proof -
  from handshake_events [OF assms(1)] assms(3)
  have reg: "events c1 ''disconnect'' = Some (wrapper f ''disconnect'', m)" by simp
  have cc: "create_connection E c session_key conn connection_event =
           \<lparr>final = c1\<lparr>reader := None, writer := None\<rparr>,
            wire = w\<lparr>closed := True\<rparr>,
            raised = None,
            scheduled = tasks @ [(wrapper f ''disconnect'', PyNone)],
            printed = out,
            connection_event_set = connection_event\<rparr>"
    by (simp add: create_connection_def assms(1,2) reg)
  have run: "run_handler E (wrapper f ''disconnect'') PyNone = Inr (Some (f, []))"
    by (simp add: run_handler_def run_wrapper_def reserved_events_def)
  from cc run show ?thesis by simp
qed

theorem connection_error_disconnects_witness:
  "handshake demo alice [7] demo_stream =
     (alice_connected,
      \<lparr>written = [[0, 0, 0, 0, 0, 0, 0, 2], [33, 3], [0, 0, 0, 0, 0, 0, 0, 1], [7]],
       closed = False\<rparr>,
      Inr [demo_frame, demo_signature])
   \<and> process_incoming_events demo alice_connected [7] [demo_frame, demo_signature] [] [] =
       (ConnectionError, [(default_event, Bytes [1, 1])], [])
   \<and> events alice ''disconnect'' = Some (wrapper disconnect ''disconnect'', BYTES)
   \<and> create_connection demo alice [7] demo_stream True =
       \<lparr>final = alice_connected\<lparr>reader := None, writer := None\<rparr>,
        wire = \<lparr>written = [[0, 0, 0, 0, 0, 0, 0, 2], [33, 3], [0, 0, 0, 0, 0, 0, 0, 1], [7]],
                closed = True\<rparr>,
        raised = None,
        scheduled = [(default_event, Bytes [1, 1]), (wrapper disconnect ''disconnect'', PyNone)],
        printed = [],
        connection_event_set = True\<rparr>
   \<and> run_handler demo (wrapper disconnect ''disconnect'') PyNone = Inr (Some (disconnect, []))"
proof -
  have reg: "events alice ''disconnect'' = Some (wrapper disconnect ''disconnect'', BYTES)"
    by (simp add: alice_fields)
  show ?thesis
    using connection_error_disconnects [OF demo_handshake demo_loop_signed reg, of True]
      demo_handshake demo_loop_signed reg
    by simp
qed

text \<open>
  Claim C5. For an RSA key pair with modulus \<open>n\<close> and exponents \<open>e\<close>, \<open>d\<close>, signing a
  digest whose integer is below \<open>n\<close> and verifying the signature gives the digest back:
  \<open>pow(pow(h, d, n), e, n) = h\<close>. A digest of 64 bytes, as SHA-512 gives, is below
  \<open>2 ^ 512\<close> and so below every modulus of at least 512 bits.
\<close>

theorem raw_verify_recovers_digest:
  assumes "rsa_key_pair p q k"
    and "int_from_bytes digest < rsa_n k \<or> (length digest = 64 \<and> 2 ^ 512 \<le> rsa_n k)"
  shows "\<exists>signature.
           py_pow (int_from_bytes digest) (rsa_d k) (rsa_n k) = Inr signature
         \<and> py_pow signature (rsa_e k) (rsa_n k) = Inr (int_from_bytes digest)"
proof -
  let ?h = "int_from_bytes digest"
  from assms(1) have pr: "is_prime p" "is_prime q" "p \<noteq> q" and n: "rsa_n k = p * q"
    and ed: "rsa_e k * rsa_d k mod ((p - 1) * (q - 1)) = 1"
    by (simp_all add: rsa_key_pair_def)
  have below: "?h < rsa_n k"
  proof -
    have "?h < rsa_n k" if "length digest = 64" "2 ^ 512 \<le> rsa_n k"
    proof -
      have "?h < 256 ^ 64" using int_from_bytes_bound [of digest] that(1) by simp
      also have "(256::nat) ^ 64 = 2 ^ 512" by simp
      finally show ?thesis using that(2) by simp
    qed
    with assms(2) show ?thesis by blast
  qed
  then have pos: "rsa_n k \<noteq> 0" by simp
  have "(?h ^ rsa_d k mod rsa_n k) ^ rsa_e k mod rsa_n k = ?h ^ (rsa_e k * rsa_d k) mod rsa_n k"
    by (simp add: power_mod power_mult [symmetric] mult.commute)
  also have "\<dots> = ?h mod rsa_n k"
    unfolding n by (rule rsa_exponents [OF pr ed])
  also have "\<dots> = ?h" using below by simp
  finally show ?thesis using pos by (simp add: py_pow_def)
qed

theorem raw_verify_recovers_digest_witness:
  "rsa_key_pair 3 11 demo_private
   \<and> int_from_bytes [2] < rsa_n demo_private
   \<and> py_pow (int_from_bytes [2]) (rsa_d demo_private) (rsa_n demo_private) = Inr 29
   \<and> py_pow 29 (rsa_e demo_private) (rsa_n demo_private) = Inr (int_from_bytes [2])"
proof -
  have kp: "rsa_key_pair 3 11 demo_private"
    by (simp add: rsa_key_pair_def is_prime_3 is_prime_11 demo_private_def)
  have lt: "int_from_bytes [2] < rsa_n demo_private
            \<or> (length [2 :: byte] = 64 \<and> 2 ^ 512 \<le> rsa_n demo_private)"
    by (simp add: int_from_bytes_def demo_private_def)
  show ?thesis
    using raw_verify_recovers_digest [OF kp lt] kp
    by (simp add: py_pow_def int_from_bytes_def demo_private_def)
qed

end
